theory Spec2Isabelle
  imports Complex_Main
begin

section \<open>Settings and file handles (main.ts)\<close>

text \<open>
  A JavaScript string is the list of its UTF-16 code units, as natural numbers; \<open>str\<close>
  reads an ASCII literal as such a list. Then the plugin's settings interface and its
  defaults.
\<close>

type_synonym ustring = "nat list"

abbreviation str :: "string \<Rightarrow> ustring" where
  "str s \<equiv> map of_char s"

record VoiceNotesSettings =
  openAIAPIKey :: ustring
  watchDirectory :: ustring
  processedDirectory :: ustring
  outputDirectory :: ustring

definition DEFAULT_SETTINGS :: VoiceNotesSettings where
  "DEFAULT_SETTINGS =
     \<lparr> openAIAPIKey = [],
       watchDirectory = (str ''voice-notes''),
       processedDirectory = (str ''voice-notes-processed''),
       outputDirectory = (str ''voice-notes-output'') \<rparr>"

text \<open>
  The fields of the host's \<open>TFile\<close> that the plugin reads: \<open>path\<close>, \<open>name\<close>,
  \<open>extension\<close> and \<open>stat.mtime\<close> (milliseconds since the epoch). An abstract file of the
  vault is a file or a folder; \<open>instanceof TFile\<close> is the constructor test.
\<close>

record TFile =
  path :: ustring
  name :: ustring
  extension :: ustring
  mtime :: int

datatype TAbstractFile = File TFile | Folder ustring

text \<open>\<open>String.prototype.startsWith\<close> and \<open>String.prototype.includes\<close> (named \<open>includesStr\<close> here).\<close>

fun startsWith :: "ustring \<Rightarrow> ustring \<Rightarrow> bool" where
  "startsWith s [] = True"
| "startsWith [] (c # cs) = False"
| "startsWith (x # xs) (c # cs) = (x = c \<and> startsWith xs cs)"

fun includesStr :: "ustring \<Rightarrow> ustring \<Rightarrow> bool" where
  "includesStr [] sub = (sub = [])"
| "includesStr (x # xs) sub = (startsWith (x # xs) sub \<or> includesStr xs sub)"

definition isAudioFile :: "TFile \<Rightarrow> bool" where
  "isAudioFile file = (extension file = (str ''mp3'') \<or> extension file = (str ''m4a''))"

fun shouldProcessFile :: "VoiceNotesSettings \<Rightarrow> TAbstractFile \<Rightarrow> bool" where
  "shouldProcessFile settings (File f) =
     (includesStr (path f) (watchDirectory settings) \<and> isAudioFile f)"
| "shouldProcessFile settings (Folder p) =
     (includesStr p (watchDirectory settings) \<and> False)"

section \<open>Strings (the JavaScript string methods the processor calls)\<close>

text \<open>
  \<open>split\<close> with a one-character separator, \<open>join\<close>, \<open>slice(1)\<close> on an array and
  \<open>trim\<close>. \<open>split\<close> never returns the empty array: the empty string splits into one
  empty piece. \<open>trim\<close> strips the white space and the line terminators of ECMAScript:
  tab, line feed, vertical tab, form feed, carriage return, space, no-break space, the
  space separators of Unicode (\<open>U+1680\<close>, \<open>U+2000\<close> to \<open>U+200A\<close>, \<open>U+202F\<close>, \<open>U+205F\<close>,
  \<open>U+3000\<close>), line and paragraph separator, and the byte order mark.
\<close>

fun split :: "nat \<Rightarrow> ustring \<Rightarrow> ustring list" where
  "split sep [] = [[]]"
| "split sep (c # cs) =
     (if c = sep then [] # split sep cs
      else (case split sep cs of [] \<Rightarrow> [[c]] | l # ls \<Rightarrow> (c # l) # ls))"

fun join :: "ustring \<Rightarrow> ustring list \<Rightarrow> ustring" where
  "join sep [] = []"
| "join sep [l] = l"
| "join sep (l # l' # ls) = l @ sep @ join sep (l' # ls)"

definition slice1 :: "'a list \<Rightarrow> 'a list" where
  "slice1 xs = drop 1 xs"

definition isWhiteSpace :: "nat \<Rightarrow> bool" where
  "isWhiteSpace c =
     (c \<in> {0x0009, 0x000A, 0x000B, 0x000C, 0x000D, 0x0020, 0x00A0, 0x1680,
            0x2000, 0x2001, 0x2002, 0x2003, 0x2004, 0x2005, 0x2006, 0x2007, 0x2008, 0x2009,
            0x200A, 0x2028, 0x2029, 0x202F, 0x205F, 0x3000, 0xFEFF})"

definition trim :: "ustring \<Rightarrow> ustring" where
  "trim s = rev (dropWhile isWhiteSpace (rev (dropWhile isWhiteSpace s)))"

text \<open>
  The decimal rendering of a non-negative integer, as a template literal prints the
  result of \<open>Math.floor\<close>.
\<close>

definition digitChar :: "nat \<Rightarrow> nat" where
  "digitChar d = 48 + d"

fun numberToString :: "nat \<Rightarrow> ustring" where
  "numberToString n =
     (if n < 10 then [digitChar n] else numberToString (n div 10) @ [digitChar (n mod 10)])"

declare numberToString.simps [simp del]

section \<open>Effects: the host, the log of calls and exceptions\<close>

text \<open>
  A thrown JavaScript value. The host (vault, remote API) may throw any \<open>Error\<close>; reading
  a property of \<open>undefined\<close> throws a \<open>TypeError\<close>.
\<close>

datatype error = Error ustring | TypeError ustring

text \<open>
  The calls with an effect outside the processor, in the order they are made. The calls
  that may fail carry their outcome (\<open>True\<close>: the promise resolved). A look-up of a
  folder is logged with its answer (\<open>True\<close>: the folder was found), since the creation
  of the folder hangs on it.
\<close>

datatype event =
    ReadBinary ustring bool
  | TranscriptionsCreate ustring ustring ustring bool
  | ChatCompletionsCreate ustring "(ustring \<times> ustring) list" bool
  | VaultCreate ustring ustring bool
  | VaultCreateFolder ustring bool
  | VaultRename ustring ustring bool
  | GetFolderByPath ustring bool
  | Notice ustring
  | ConsoleLog ustring
  | ConsoleError error

text \<open>
  Everything outside the repository is a parameter: the vault and the remote API act on a
  world \<open>'w\<close> of their own and may fail; \<open>moment\<close> formats a time stamp in the local
  zone; \<open>Math.random\<close> draws a number. \<open>vault_getAbstractFileByPath\<close> and
  \<open>vault_getFolderByPath\<close> answer whether the result is not \<open>null\<close>. A transcription
  response carries an optional \<open>text\<close>; a chat response carries the \<open>message.content\<close>
  (a string or \<open>null\<close>) of each of its choices.
\<close>

record 'w host =
  moment_format :: "int \<Rightarrow> ustring \<Rightarrow> ustring"
  moment_toISOString :: "int \<Rightarrow> ustring"
  Math_random :: "'w \<Rightarrow> real \<times> 'w"
  vault_getAbstractFileByPath :: "'w \<Rightarrow> ustring \<Rightarrow> bool"
  vault_getFolderByPath :: "'w \<Rightarrow> ustring \<Rightarrow> bool"
  vault_getFiles :: "'w \<Rightarrow> TFile list"
  vault_readBinary :: "TFile \<Rightarrow> 'w \<Rightarrow> (error + ustring) \<times> 'w"
  vault_create :: "ustring \<Rightarrow> ustring \<Rightarrow> 'w \<Rightarrow> (error + unit) \<times> 'w"
  vault_createFolder :: "ustring \<Rightarrow> 'w \<Rightarrow> (error + unit) \<times> 'w"
  vault_rename :: "TFile \<Rightarrow> ustring \<Rightarrow> 'w \<Rightarrow> (error + unit) \<times> 'w"
  openai_transcriptions_create ::
    "ustring \<Rightarrow> ustring \<Rightarrow> ustring \<Rightarrow> ustring \<Rightarrow> 'w \<Rightarrow> (error + ustring option) \<times> 'w"
  openai_chat_completions_create ::
    "ustring \<Rightarrow> (ustring \<times> ustring) list \<Rightarrow> 'w \<Rightarrow> (error + ustring option list) \<times> 'w"

text \<open>
  The state threaded through the plugin: the world, the log, and the tasks added to the
  \<open>PQueue\<close> that have not run yet (a task is the closure of \<open>queueFile\<close> over its file).
\<close>

record 'w state =
  world :: 'w
  log :: "event list"
  queue :: "TFile list"

type_synonym ('w, 'a) io = "'w state \<Rightarrow> (error + 'a) \<times> 'w state"

definition returnIO :: "'a \<Rightarrow> ('w, 'a) io" where
  "returnIO x = (\<lambda>s. (Inr x, s))"

definition throwIO :: "error \<Rightarrow> ('w, 'a) io" where
  "throwIO e = (\<lambda>s. (Inl e, s))"

text \<open>\<open>await m\<close> followed by the rest of the body: a rejection of \<open>m\<close> leaves the body.\<close>

definition bindIO :: "('w, 'a) io \<Rightarrow> ('a \<Rightarrow> ('w, 'b) io) \<Rightarrow> ('w, 'b) io" where
  "bindIO m f = (\<lambda>s. case m s of (Inl e, s') \<Rightarrow> (Inl e, s') | (Inr a, s') \<Rightarrow> f a s')"


definition emit :: "event \<Rightarrow> ('w, unit) io" where
  "emit ev = (\<lambda>s. (Inr (), s\<lparr>log := log s @ [ev]\<rparr>))"

definition ok :: "error + 'a \<Rightarrow> bool" where
  "ok r = (case r of Inl e \<Rightarrow> False | Inr a \<Rightarrow> True)"

text \<open>A call of the host: run it on the world and log it with its outcome.\<close>

definition hostCall :: "('w \<Rightarrow> (error + 'a) \<times> 'w) \<Rightarrow> (bool \<Rightarrow> event) \<Rightarrow> ('w, 'a) io" where
  "hostCall f ev =
     (\<lambda>s. case f (world s) of (r, w) \<Rightarrow> (r, s\<lparr>world := w, log := log s @ [ev (ok r)]\<rparr>))"

definition readBinary :: "'w host \<Rightarrow> TFile \<Rightarrow> ('w, ustring) io" where
  "readBinary h file = hostCall (vault_readBinary h file) (ReadBinary (path file))"

definition transcriptionsCreate ::
    "'w host \<Rightarrow> ustring \<Rightarrow> ustring \<Rightarrow> ustring \<Rightarrow> ustring \<Rightarrow> ('w, ustring option) io" where
  "transcriptionsCreate h audioData fileName fileType model =
     hostCall (openai_transcriptions_create h audioData fileName fileType model)
       (TranscriptionsCreate fileName fileType model)"

definition chatCompletionsCreate ::
    "'w host \<Rightarrow> ustring \<Rightarrow> (ustring \<times> ustring) list \<Rightarrow> ('w, ustring option list) io" where
  "chatCompletionsCreate h model messages =
     hostCall (openai_chat_completions_create h model messages)
       (ChatCompletionsCreate model messages)"

definition vaultCreate :: "'w host \<Rightarrow> ustring \<Rightarrow> ustring \<Rightarrow> ('w, unit) io" where
  "vaultCreate h p data = hostCall (vault_create h p data) (VaultCreate p data)"

definition vaultCreateFolder :: "'w host \<Rightarrow> ustring \<Rightarrow> ('w, unit) io" where
  "vaultCreateFolder h p = hostCall (vault_createFolder h p) (VaultCreateFolder p)"

definition vaultRename :: "'w host \<Rightarrow> TFile \<Rightarrow> ustring \<Rightarrow> ('w, unit) io" where
  "vaultRename h file target = hostCall (vault_rename h file target) (VaultRename (path file) target)"

definition mathRandom :: "'w host \<Rightarrow> ('w, real) io" where
  "mathRandom h = (\<lambda>s. case Math_random h (world s) of (u, w) \<Rightarrow> (Inr u, s\<lparr>world := w\<rparr>))"

definition getFolderByPath :: "'w host \<Rightarrow> ustring \<Rightarrow> ('w, bool) io" where
  "getFolderByPath h p =
     (\<lambda>s. let found = vault_getFolderByPath h (world s) p
          in (Inr found, s\<lparr>log := log s @ [GetFolderByPath p found]\<rparr>))"

section \<open>The processor (processor.ts beside main.ts)\<close>

definition noText :: ustring where
  "noText = (str ''No transcription text received from OpenAI'')"

definition transcribeAudio :: "'w host \<Rightarrow> TFile \<Rightarrow> ('w, ustring) io" where
  "transcribeAudio h file =
     bindIO (readBinary h file) (\<lambda>audioData.
     bindIO (transcriptionsCreate h audioData ((str ''audio.'') @ extension file)
               ((str ''audio/'') @ extension file) (str ''whisper-1'')) (\<lambda>response_text.
       case response_text of
         None \<Rightarrow> throwIO (Error noText)
       | Some t \<Rightarrow> if t = [] then throwIO (Error noText) else returnIO t))"

definition systemPrompt :: ustring where
  "systemPrompt =
     (str ''You are a helpful assistant that summarizes voice notes. \<newline>'') @
     (str ''You are writing in the original language of the voice note (either German or English).\<newline>'') @
     (str ''You are writing as if you were the author of the voice note.\<newline>'') @
     (str ''You are writing in the first person.'')"

definition userPrompt :: "ustring \<Rightarrow> ustring" where
  "userPrompt transcript =
     (str ''Please summarize this transcript.\<newline>'') @
     (str ''Start with a specific summary of key points (up to 300 characters) followed by a bullet list of the content.\<newline>'') @
     (str ''\<newline>'') @ transcript"

text \<open>
  \<open>response.choices[0].message.content\<close>: with no choice at all the property read throws;
  a \<open>null\<close> or empty content is refused. \<open>contentLines[0]\<close> of an empty array would be
  \<open>undefined\<close>; \<open>split\<close> never returns one.
\<close>

definition enhanceTranscript :: "'w host \<Rightarrow> ustring \<Rightarrow> ('w, ustring \<times> ustring) io" where
  "enhanceTranscript h transcript =
     bindIO (chatCompletionsCreate h (str ''gpt-4o'')
               [((str ''system''), systemPrompt), ((str ''user''), userPrompt transcript)]) (\<lambda>choices.
       case choices of
         [] \<Rightarrow> throwIO (TypeError (str ''Cannot read properties of undefined''))
       | content0 # _ \<Rightarrow>
           (case content0 of
              None \<Rightarrow> throwIO (Error noText)
            | Some c \<Rightarrow>
                if c = [] then throwIO (Error noText)
                else
                  (let contentLines = split (of_char (CHR 0x0A)) c
                   in returnIO
                        (case contentLines of [] \<Rightarrow> (str ''undefined'') | l # _ \<Rightarrow> l,
                         trim (join [(of_char (CHR 0x0A))] (slice1 contentLines))))))"

text \<open>The note: the template literal of \<open>formatToMarkdown\<close>, line by line.\<close>

definition formatToMarkdown ::
    "'w host \<Rightarrow> ustring \<Rightarrow> ustring \<Rightarrow> ustring \<Rightarrow> ustring \<Rightarrow> TFile \<Rightarrow> ustring" where
  \<open>formatToMarkdown h content transcript audioFileName summary file =
     (str ''---\<newline>'') @
     (str ''source: "[['') @ audioFileName @ (str '']]"\<newline>'') @
     (str ''summary: "'') @ summary @ (str ''"\<newline>'') @
     (str ''timestamp: "'') @ moment_toISOString h (mtime file) @ (str ''"\<newline>'') @
     (str ''tags: \<newline>'') @
     (str ''  - fromvoicenote\<newline>'') @
     (str ''---\<newline>'') @
     content @ (str ''\<newline>'') @
     (str ''\<newline>'') @
     (str ''## Original transcript\<newline>'') @
     (str ''\<newline>'') @
     transcript\<close>

text \<open>
  \<open>Math.floor(Math.random() * 1000)\<close>. The draw and 1000 are doubles and so is their
  product: the exact product rounded to the nearest double, ties to the even significand.
  For \<open>0 \<le> x < 1024\<close>, \<open>ulpBelow 1031 1024 x\<close> is the spacing of the doubles around \<open>x\<close>: it
  halves the bound \<open>b\<close> until \<open>b / 2 \<le> x < b\<close>, where the spacing is \<open>b / 2 ^ 53\<close>, and
  stops at the spacing \<open>2 ^ -1074\<close> of the smallest doubles. \<open>Math.floor\<close> of a double is
  its exact floor. \<open>unitDouble\<close> says that a real number is a double in \<open>[0, 1)\<close>, which
  is what \<open>Math.random\<close> returns.
\<close>

fun ulpBelow :: "nat \<Rightarrow> real \<Rightarrow> real \<Rightarrow> real" where
  "ulpBelow 0 b x = b / 2 ^ 53"
| "ulpBelow (Suc n) b x = (if b / 2 \<le> x then b / 2 ^ 53 else ulpBelow n (b / 2) x)"

definition roundHalfEven :: "real \<Rightarrow> int" where
  "roundHalfEven q =
     (let f = \<lfloor>q\<rfloor>; d = q - of_int f
      in if d < 1 / 2 then f else if 1 / 2 < d then f + 1 else if even f then f else f + 1)"

definition roundToDouble :: "real \<Rightarrow> real" where
  "roundToDouble x =
     (let ulp = ulpBelow 1031 1024 x in ulp * of_int (roundHalfEven (x / ulp)))"

definition unitDouble :: "real \<Rightarrow> bool" where
  "unitDouble u =
     (0 \<le> u \<and> u < 1 \<and> (let ulp = ulpBelow 1021 1 u in of_int \<lfloor>u / ulp\<rfloor> * ulp = u))"

definition randomInt1000 :: "real \<Rightarrow> nat" where
  "randomInt1000 u = nat \<lfloor>roundToDouble (u * 1000)\<rfloor>"

text \<open>
  The two collision checks of \<open>processAudioFile\<close>: the path of the note and the path of
  the archived recording. Each asks the vault once and, when the path is taken, draws one
  random suffix; the suffixed path is not looked up.
\<close>

definition resolveOutputPath :: "'w host \<Rightarrow> VoiceNotesSettings \<Rightarrow> ustring \<Rightarrow> ('w, ustring) io" where
  "resolveOutputPath h settings baseFileName =
     (\<lambda>s. let outputPath = outputDirectory settings @ (str ''/'') @ baseFileName @ (str ''.md'')
          in if vault_getAbstractFileByPath h (world s) outputPath
             then bindIO (mathRandom h) (\<lambda>u. returnIO
                    (outputDirectory settings @ (str ''/'') @ baseFileName @ (str ''_'')
                       @ numberToString (randomInt1000 u) @ (str ''.md''))) s
             else returnIO outputPath s)"

definition resolveTargetLocation ::
    "'w host \<Rightarrow> VoiceNotesSettings \<Rightarrow> ustring \<Rightarrow> ustring \<Rightarrow> ('w, ustring) io" where
  "resolveTargetLocation h settings baseFileName ext =
     (\<lambda>s. let processedDir = processedDirectory settings;
              audioFileName = baseFileName @ (str ''.'') @ ext;
              targetLocation = processedDir @ (str ''/'') @ audioFileName
          in if vault_getAbstractFileByPath h (world s) targetLocation
             then bindIO (mathRandom h) (\<lambda>u.
                    let randomSuffix = (str ''_'') @ numberToString (randomInt1000 u)
                    in returnIO (processedDirectory settings @ (str ''/'') @ baseFileName
                                   @ randomSuffix @ (str ''.'') @ ext)) s
             else returnIO targetLocation s)"

definition processAudioFile :: "'w host \<Rightarrow> VoiceNotesSettings \<Rightarrow> TFile \<Rightarrow> ('w, unit) io" where
  "processAudioFile h settings file =
     (let formattedDate = moment_format h (mtime file) (str ''YYYY-MM-DD'');
          formattedTime = moment_format h (mtime file) (str ''HH.mm'');
          baseFileName = formattedDate @ (str '' at '') @ formattedTime;
          audioFileName = baseFileName @ (str ''.'') @ extension file
      in bindIO (transcribeAudio h file) (\<lambda>transcript.
         bindIO (enhanceTranscript h transcript) (\<lambda>(summary, content).
         let markdownContent = formatToMarkdown h content transcript audioFileName summary file
         in bindIO (resolveOutputPath h settings baseFileName) (\<lambda>outputPath.
            bindIO (vaultCreate h outputPath markdownContent) (\<lambda>_.
            bindIO (resolveTargetLocation h settings baseFileName (extension file)) (\<lambda>targetLocation.
            bindIO (emit (ConsoleLog ((str ''Renaming '') @ name file @ (str '' to: '') @ targetLocation))) (\<lambda>_.
            vaultRename h file targetLocation)))))))"

text \<open>
  The two names \<open>processAudioFile\<close> computes first, \<open>baseFileName\<close> and \<open>audioFileName\<close>,
  as functions of the file, for the statements about a run.
\<close>

definition baseFileNameOf :: "'w host \<Rightarrow> TFile \<Rightarrow> ustring" where
  "baseFileNameOf h file =
     moment_format h (mtime file) (str ''YYYY-MM-DD'') @ str '' at ''
       @ moment_format h (mtime file) (str ''HH.mm'')"

definition audioFileNameOf :: "'w host \<Rightarrow> TFile \<Rightarrow> ustring" where
  "audioFileNameOf h file = baseFileNameOf h file @ str ''.'' @ extension file"

section \<open>The older copy of the processor (src/processor.ts)\<close>

text \<open>
  The repository holds a second, older \<open>processor.ts\<close> under \<open>src/\<close>; \<open>main.ts\<close> imports
  the one beside it. Its \<open>transcribeAudio\<close> is the one above. It asks another model with
  another prompt and does not trim the body, writes a note without the transcript, has
  no collision check, and makes sure of the processed directory before it moves the
  source. Its log line prints the file object itself.
\<close>

definition userPrompt_src :: "ustring \<Rightarrow> ustring" where
  "userPrompt_src transcript =
     (str ''I recorded this voice note recently. Please summarize it in the original language and from my perspective.\<newline>'') @
     (str ''Start the summary with a short one-liner. Shorter is better.\<newline>'') @
     (str ''Use a bullet list format, combining related items into single bullets as appropriate\<newline>'') @
     (str ''\<newline>'') @ transcript"

definition enhanceTranscript_src :: "'w host \<Rightarrow> ustring \<Rightarrow> ('w, ustring \<times> ustring) io" where
  "enhanceTranscript_src h transcript =
     bindIO (chatCompletionsCreate h (str ''gpt-4'') [((str ''user''), userPrompt_src transcript)]) (\<lambda>choices.
       case choices of
         [] \<Rightarrow> throwIO (TypeError (str ''Cannot read properties of undefined''))
       | content0 # _ \<Rightarrow>
           (case content0 of
              None \<Rightarrow> throwIO (Error noText)
            | Some c \<Rightarrow>
                if c = [] then throwIO (Error noText)
                else
                  (let contentLines = split (of_char (CHR 0x0A)) c
                   in returnIO
                        (case contentLines of [] \<Rightarrow> (str ''undefined'') | l # _ \<Rightarrow> l,
                         join [(of_char (CHR 0x0A))] (slice1 contentLines)))))"

definition formatToMarkdown_src ::
    "'w host \<Rightarrow> ustring \<Rightarrow> ustring \<Rightarrow> ustring \<Rightarrow> TFile \<Rightarrow> ustring" where
  \<open>formatToMarkdown_src h content audioFileName summary file =
     (str ''---\<newline>'') @
     (str ''source: "[['') @ audioFileName @ (str '']]"\<newline>'') @
     (str ''summary: "'') @ summary @ (str ''"\<newline>'') @
     (str ''date: "'') @ moment_toISOString h (mtime file) @ (str ''"\<newline>'') @
     (str ''tags: \<newline>'') @
     (str ''  - fromvoicenote\<newline>'') @
     (str ''---\<newline>'') @
     content\<close>

definition processAudioFile_src :: "'w host \<Rightarrow> VoiceNotesSettings \<Rightarrow> TFile \<Rightarrow> ('w, unit) io" where
  "processAudioFile_src h settings file =
     (let formattedDate = moment_format h (mtime file) (str ''YYYY-MM-DD'');
          formattedTime = moment_format h (mtime file) (str ''HH.mm'');
          baseFileName = formattedDate @ (str '' at '') @ formattedTime;
          audioFileName = baseFileName @ (str ''.'') @ extension file
      in bindIO (transcribeAudio h file) (\<lambda>transcript.
         bindIO (enhanceTranscript_src h transcript) (\<lambda>(summary, content).
         let markdownContent = formatToMarkdown_src h content audioFileName summary file;
             outputPath = outputDirectory settings @ (str ''/'') @ baseFileName @ (str ''.md'')
         in bindIO (vaultCreate h outputPath markdownContent) (\<lambda>_.
            let processedDir = processedDirectory settings
            in bindIO (getFolderByPath h processedDir) (\<lambda>found.
               bindIO (if \<not> found then vaultCreateFolder h processedDir else returnIO ()) (\<lambda>_.
               let targetLocation = processedDir @ (str ''/'') @ audioFileName
               in bindIO (emit (ConsoleLog ((str ''Renaming '') @ (str ''[object Object]'') @ (str '' to: '')
                                              @ targetLocation))) (\<lambda>_.
                  vaultRename h file targetLocation)))))))"

section \<open>The queue\<close>

text \<open>
  \<open>queueFile\<close> adds one task to the \<open>PQueue\<close>; \<open>queueTask\<close> is the body of that task.
  \<open>PQueue\<close> is the p-queue package, outside the repository: built with
  \<open>concurrency: 1\<close> and fed without priorities, it runs the added tasks one after the
  other in the order they were added. \<open>runTasks\<close> is that run, taken pessimistically:
  a task that rejects would end it.
\<close>

definition queueFile :: "TFile \<Rightarrow> 'w state \<Rightarrow> 'w state" where
  "queueFile file s = s\<lparr>queue := queue s @ [file]\<rparr>"




section \<open>Start-up and the watcher (main.ts)\<close>

fun queueFromWatcher :: "VoiceNotesSettings \<Rightarrow> TAbstractFile \<Rightarrow> 'w state \<Rightarrow> 'w state" where
  "queueFromWatcher settings (File f) s =
     (if shouldProcessFile settings (File f) then queueFile f s else s)"
| "queueFromWatcher settings (Folder p) s = s"

definition queueUnprocessedFiles :: "'w host \<Rightarrow> VoiceNotesSettings \<Rightarrow> 'w state \<Rightarrow> 'w state" where
  "queueUnprocessedFiles h settings s =
     foldl (\<lambda>s' f. if shouldProcessFile settings (File f) then queueFile f s' else s')
       s (vault_getFiles h (world s))"

text \<open>The callback \<open>onload\<close> hands to \<open>onLayoutReady\<close>, up to the registration of the watcher.\<close>

definition onLayoutReady :: "'w host \<Rightarrow> VoiceNotesSettings \<Rightarrow> ('w, unit) io" where
  "onLayoutReady h settings =
     bindIO (emit (ConsoleLog (str ''ObsidianVoiceNotesPlugin: onload''))) (\<lambda>_.
     bindIO (getFolderByPath h (processedDirectory settings)) (\<lambda>found.
     bindIO (if \<not> found then vaultCreateFolder h (processedDirectory settings)
             else returnIO ()) (\<lambda>_.
     bindIO (getFolderByPath h (outputDirectory settings)) (\<lambda>found.
     bindIO (if \<not> found then vaultCreateFolder h (outputDirectory settings)
             else returnIO ()) (\<lambda>_.
     (\<lambda>s. (Inr (), queueUnprocessedFiles h settings s)))))))"

section \<open>A small vault for running the model\<close>

text \<open>
  A concrete host on which the definitions above are evaluated in the examples: files
  and folders by path, the future draws of \<open>Math.random\<close>, and the answers of the two
  remote calls as functions of the audio data and of the messages. Writing a file fails
  when the path is taken; a rename fails when the source is missing, when the target is
  taken or when the folder of the target does not exist. The clock always formats the
  first of May 2024, nine o'clock.
\<close>

record simWorld =
  simFiles :: "(ustring \<times> ustring) list"
  simFolders :: "ustring list"
  simRandom :: "real list"

definition simExists :: "simWorld \<Rightarrow> ustring \<Rightarrow> bool" where
  "simExists w p = (p \<in> set (map fst (simFiles w)) \<or> p \<in> set (simFolders w))"

definition parentOf :: "ustring \<Rightarrow> ustring" where
  "parentOf p = rev (drop 1 (dropWhile (\<lambda>c. c \<noteq> (of_char (CHR ''/''))) (rev p)))"

definition simHost ::
    "(ustring \<Rightarrow> error + ustring option) \<Rightarrow> ((ustring \<times> ustring) list \<Rightarrow> error + ustring option list)
       \<Rightarrow> simWorld host" where
  "simHost whisper chat =
     \<lparr> moment_format = (\<lambda>t f. if f = (str ''YYYY-MM-DD'') then (str ''2024-05-01'') else (str ''09.00'')),
       moment_toISOString = (\<lambda>t. (str ''2024-05-01T09:00:00.000+02:00'')),
       Math_random = (\<lambda>w. case simRandom w of [] \<Rightarrow> (0, w) | u # us \<Rightarrow> (u, w\<lparr>simRandom := us\<rparr>)),
       vault_getAbstractFileByPath = simExists,
       vault_getFolderByPath = (\<lambda>w p. p \<in> set (simFolders w)),
       vault_getFiles = (\<lambda>w. []),
       vault_readBinary = (\<lambda>f w. case map_of (simFiles w) (path f) of
                                   None \<Rightarrow> (Inl (Error (str ''File not found'')), w)
                                 | Some d \<Rightarrow> (Inr d, w)),
       vault_create = (\<lambda>p d w. if simExists w p then (Inl (Error (str ''File already exists.'')), w)
                               else (Inr (), w\<lparr>simFiles := (p, d) # simFiles w\<rparr>)),
       vault_createFolder = (\<lambda>p w. if simExists w p then (Inl (Error (str ''Folder already exists.'')), w)
                                   else (Inr (), w\<lparr>simFolders := p # simFolders w\<rparr>)),
       vault_rename = (\<lambda>f t w. case map_of (simFiles w) (path f) of
                                  None \<Rightarrow> (Inl (Error (str ''File not found'')), w)
                                | Some d \<Rightarrow>
                                    if simExists w t then (Inl (Error (str ''Destination file already exists!'')), w)
                                    else if parentOf t \<notin> set (simFolders w)
                                    then (Inl (Error (str ''ENOENT: no such file or directory'')), w)
                                    else (Inr (), w\<lparr>simFiles := (t, d) # filter (\<lambda>e. fst e \<noteq> path f) (simFiles w)\<rparr>)),
       openai_transcriptions_create = (\<lambda>d n t m w. (whisper d, w)),
       openai_chat_completions_create = (\<lambda>m msgs w. (chat msgs, w)) \<rparr>"

definition recording :: TFile where
  "recording = \<lparr> path = (str ''voice-notes/memo.m4a''), name = (str ''memo.m4a''), extension = (str ''m4a''),
                 mtime = 1714546800000 \<rparr>"

definition simStart :: "simWorld state" where
  "simStart =
     \<lparr> world = \<lparr> simFiles = [((str ''voice-notes/memo.m4a''), (str ''AUDIO''))],
                 simFolders = [(str ''voice-notes''), (str ''voice-notes-processed''), (str ''voice-notes-output'')],
                 simRandom = [] \<rparr>,
       log = [], queue = [] \<rparr>"

definition goodWhisper :: "ustring \<Rightarrow> error + ustring option" where
  "goodWhisper d = Inr (Some (str ''Hello world''))"

definition goodChat :: "(ustring \<times> ustring) list \<Rightarrow> error + ustring option list" where
  "goodChat msgs = Inr [Some (str ''Quick note\<newline>- said hello'')]"

section \<open>Reading the log\<close>

text \<open>
  The events that change the vault, the events about folders, the notes written, the
  relocations of one file and the notices shown to the user.
\<close>

fun vaultWrite :: "event \<Rightarrow> bool" where
  "vaultWrite (VaultCreate p d b) = True"
| "vaultWrite (VaultCreateFolder p b) = True"
| "vaultWrite (VaultRename p t b) = True"
| "vaultWrite ev = False"

fun isNotice :: "event \<Rightarrow> bool" where
  "isNotice (Notice m) = True"
| "isNotice ev = False"

fun folderEvent :: "event \<Rightarrow> bool" where
  "folderEvent (GetFolderByPath p b) = True"
| "folderEvent (VaultCreateFolder p b) = True"
| "folderEvent ev = False"

definition quiet :: "event list \<Rightarrow> bool" where
  "quiet evs = (\<forall>ev \<in> set evs. \<not> vaultWrite ev \<and> \<not> isNotice ev \<and> \<not> folderEvent ev)"

fun notesWritten :: "event list \<Rightarrow> ustring list" where
  "notesWritten [] = []"
| "notesWritten (VaultCreate p d b # evs) = (if b then p # notesWritten evs else notesWritten evs)"
| "notesWritten (ev # evs) = notesWritten evs"

fun renames :: "event list \<Rightarrow> (ustring \<times> ustring \<times> bool) list" where
  "renames [] = []"
| "renames (VaultRename p t b # evs) = (p, t, b) # renames evs"
| "renames (ev # evs) = renames evs"


section \<open>Further scenarios for the small vault\<close>

definition failingWhisper :: "ustring \<Rightarrow> error + ustring option" where
  "failingWhisper d = Inl (Error (str ''503 Service Unavailable''))"

definition emptyChat :: "(ustring \<times> ustring) list \<Rightarrow> error + ustring option list" where
  "emptyChat msgs = Inr [Some []]"

text \<open>
  Two more starting states: one where the note path and its suffixed variant for the draw
  \<open>1/2\<close> are both taken, and one where the archive folder is missing.
\<close>

definition simTaken :: "simWorld state" where
  "simTaken =
     \<lparr> world = \<lparr> simFiles = [((str ''voice-notes/memo.m4a''), (str ''AUDIO'')),
                             ((str ''voice-notes-output/2024-05-01 at 09.00.md''), (str ''old'')),
                             ((str ''voice-notes-output/2024-05-01 at 09.00_500.md''), (str ''older''))],
                 simFolders = [(str ''voice-notes''), (str ''voice-notes-processed''), (str ''voice-notes-output'')],
                 simRandom = [1 / 2] \<rparr>,
       log = [], queue = [] \<rparr>"

definition simNoArchive :: "simWorld state" where
  "simNoArchive =
     \<lparr> world = \<lparr> simFiles = [((str ''voice-notes/memo.m4a''), (str ''AUDIO''))],
                 simFolders = [(str ''voice-notes''), (str ''voice-notes-output'')],
                 simRandom = [] \<rparr>,
       log = [], queue = [] \<rparr>"

section \<open>When a remote step is refused\<close>

text \<open>
  The two failures of a remote step named by the specification: the remote call raises
  an error, or its answer carries no usable content (absent or empty). For the
  transcription this is read at the world in which the audio has been read; for the
  summary, at the world in which the chat request is sent.
\<close>

definition transcriptionRejected :: "'w host \<Rightarrow> TFile \<Rightarrow> 'w state \<Rightarrow> bool" where
  "transcriptionRejected h file s =
     (case vault_readBinary h file (world s) of
        (Inl e, w) \<Rightarrow> False
      | (Inr audioData, w) \<Rightarrow>
          (case fst (openai_transcriptions_create h audioData ((str ''audio.'') @ extension file)
                       ((str ''audio/'') @ extension file) (str ''whisper-1'') w) of
             Inl e \<Rightarrow> True
           | Inr None \<Rightarrow> True
           | Inr (Some t) \<Rightarrow> t = []))"

definition summarizationRejected :: "'w host \<Rightarrow> ustring \<Rightarrow> 'w state \<Rightarrow> bool" where
  "summarizationRejected h transcript s =
     (case fst (openai_chat_completions_create h (str ''gpt-4o'')
                  [((str ''system''), systemPrompt), ((str ''user''), userPrompt transcript)] (world s)) of
        Inl e \<Rightarrow> True
      | Inr [] \<Rightarrow> True
      | Inr (None # others) \<Rightarrow> True
      | Inr (Some c # others) \<Rightarrow> c = [])"

text \<open>The runs of \<open>processAudioFile\<close> on the recording that the examples look at.\<close>

definition goodRun :: "(error + unit) \<times> simWorld state" where
  "goodRun = processAudioFile (simHost goodWhisper goodChat) DEFAULT_SETTINGS recording simStart"

definition takenRun :: "(error + unit) \<times> simWorld state" where
  "takenRun = processAudioFile (simHost goodWhisper goodChat) DEFAULT_SETTINGS recording simTaken"

definition failedTranscriptionRun :: "(error + unit) \<times> simWorld state" where
  "failedTranscriptionRun =
     processAudioFile (simHost failingWhisper goodChat) DEFAULT_SETTINGS recording simStart"

definition emptySummaryRun :: "(error + unit) \<times> simWorld state" where
  "emptySummaryRun =
     processAudioFile (simHost goodWhisper emptyChat) DEFAULT_SETTINGS recording simStart"

definition noArchiveRun :: "(error + unit) \<times> simWorld state" where
  "noArchiveRun =
     processAudioFile (simHost goodWhisper goodChat) DEFAULT_SETTINGS recording simNoArchive"

text \<open>
  A starting state where the archive path and its suffixed variant for the draw \<open>1/2\<close>
  are both taken, and the run from it.
\<close>

definition simArchiveTaken :: "simWorld state" where
  "simArchiveTaken =
     \<lparr> world = \<lparr> simFiles = [(str ''voice-notes/memo.m4a'', str ''AUDIO''),
                             (str ''voice-notes-processed/2024-05-01 at 09.00.m4a'', str ''OLD''),
                             (str ''voice-notes-processed/2024-05-01 at 09.00_500.m4a'', str ''OLDER'')],
                 simFolders = [str ''voice-notes'', str ''voice-notes-processed'',
                               str ''voice-notes-output''],
                 simRandom = [1 / 2] \<rparr>,
       log = [], queue = [] \<rparr>"

definition archiveTakenRun :: "(error + unit) \<times> simWorld state" where
  "archiveTakenRun =
     processAudioFile (simHost goodWhisper goodChat) DEFAULT_SETTINGS recording simArchiveTaken"

section \<open>Reading the front matter of a note\<close>

text \<open>
  The value of a front-matter field: what follows \<open>key: \<close> on the first line of the note
  that starts with it.
\<close>

definition frontMatterField :: "ustring \<Rightarrow> ustring \<Rightarrow> ustring option" where
  "frontMatterField key note =
     (case filter (\<lambda>l. startsWith l (key @ (str '': ''))) (split (of_char (CHR 0x0A)) note) of
        [] \<Rightarrow> None
      | l # ls \<Rightarrow> Some (drop (length key + 2) l))"

text \<open>
  What the specification calls a value that is valid within the front-matter quoting: a
  double-quoted scalar of YAML on one line. After the opening double quote, every
  character is a tab or a code unit from \<open>0x20\<close> on other than double quote and backslash,
  or it starts an escape: a backslash and one of \<open>0 a b t n v f r e " / \ N _ L P\<close>, space
  or tab, or \<open>x\<close>, \<open>u\<close>, \<open>U\<close> with two, four, eight hexadecimal digits. The first double
  quote outside an escape closes the value; after it only white space may follow, and
  after white space a comment.
\<close>

definition isHexDigit :: "nat \<Rightarrow> bool" where
  "isHexDigit c = ((48 \<le> c \<and> c \<le> 57) \<or> (65 \<le> c \<and> c \<le> 70) \<or> (97 \<le> c \<and> c \<le> 102))"

definition simpleEscape :: "nat \<Rightarrow> bool" where
  "simpleEscape c = (c \<in> of_char ` set ''0abtnvfre\"/NL_P '' \<or> c = 0x5C \<or> c = 0x09)"

fun afterClosingQuote :: "ustring \<Rightarrow> bool" where
  "afterClosingQuote [] = True"
| "afterClosingQuote (c # cs) =
     ((c = 0x20 \<or> c = 0x09)
      \<and> (case dropWhile (\<lambda>x. x = 0x20 \<or> x = 0x09) cs of [] \<Rightarrow> True | x # xs \<Rightarrow> x = 0x23))"

fun quotedBody :: "ustring \<Rightarrow> bool" where
  "quotedBody [] = False"
| "quotedBody (c # cs) =
     (if c = 0x22 then afterClosingQuote cs
      else if c = 0x5C then
        (case cs of
           [] \<Rightarrow> False
         | e # cs' \<Rightarrow>
             if simpleEscape e then quotedBody cs'
             else if e = 0x78 then length cs' \<ge> 2 \<and> list_all isHexDigit (take 2 cs') \<and> quotedBody (drop 2 cs')
             else if e = 0x75 then length cs' \<ge> 4 \<and> list_all isHexDigit (take 4 cs') \<and> quotedBody (drop 4 cs')
             else if e = 0x55 then length cs' \<ge> 8 \<and> list_all isHexDigit (take 8 cs') \<and> quotedBody (drop 8 cs')
             else False)
      else (c = 0x09 \<or> 0x20 \<le> c) \<and> quotedBody cs)"

fun yamlDoubleQuoted :: "ustring \<Rightarrow> bool" where
  "yamlDoubleQuoted [] = False"
| "yamlDoubleQuoted (c # cs) = (c = 0x22 \<and> quotedBody cs)"

section \<open>What the queue reports\<close>



section \<open>Properties of the candidate filter\<close>

lemma startsWith_iff: "startsWith s sub \<longleftrightarrow> (\<exists>ss. s = sub @ ss)"
  by (induction s sub rule: startsWith.induct) auto

lemma includesStr_iff: "includesStr s sub \<longleftrightarrow> (\<exists>ps ss. s = ps @ sub @ ss)"
proof (induction s)
  case Nil
  then show ?case by auto
next
  case (Cons x xs)
  show ?case
  proof
    assume "includesStr (x # xs) sub"
    then consider "startsWith (x # xs) sub" | "includesStr xs sub" by auto
    then show "\<exists>ps ss. x # xs = ps @ sub @ ss"
    proof cases
      case 1
      then obtain ss where "x # xs = sub @ ss" by (auto simp: startsWith_iff)
      then have "x # xs = [] @ sub @ ss" by simp
      then show ?thesis by blast
    next
      case 2
      then obtain ps ss where "xs = ps @ sub @ ss" using Cons.IH by auto
      then have "x # xs = (x # ps) @ sub @ ss" by simp
      then show ?thesis by blast
    qed
  next
    assume "\<exists>ps ss. x # xs = ps @ sub @ ss"
    then obtain ps ss where eq: "x # xs = ps @ sub @ ss" by blast
    show "includesStr (x # xs) sub"
    proof (cases ps)
      case Nil
      with eq have "startsWith (x # xs) sub" by (auto simp: startsWith_iff)
      then show ?thesis by simp
    next
      case (Cons p ps')
      with eq have "xs = ps' @ sub @ ss" by simp
      then have "includesStr xs sub" using Cons.IH by blast
      then show ?thesis by simp
    qed
  qed
qed

text \<open>
  Claim C6. The candidate predicate holds exactly for a regular file whose extension is
  \<open>mp3\<close> or \<open>m4a\<close> and whose path contains the watch directory as a substring, at any
  position; in particular a file with any other extension is rejected whatever its path.
\<close>

theorem shouldProcessFile_iff:
  "(shouldProcessFile settings file \<longleftrightarrow>
      (\<exists>f. file = File f \<and> extension f \<in> {(str ''mp3''), (str ''m4a'')}
         \<and> (\<exists>ps ss. path f = ps @ watchDirectory settings @ ss)))
   \<and> (\<forall>f. extension f \<notin> {(str ''mp3''), (str ''m4a'')} \<longrightarrow> \<not> shouldProcessFile settings (File f))"
  by (cases "file") (auto simp: includesStr_iff isAudioFile_def)

theorem shouldProcessFile_iff_witness:
  "shouldProcessFile DEFAULT_SETTINGS
     (File \<lparr>path = (str ''inbox/voice-notes/a.m4a''), name = (str ''a.m4a''), extension = (str ''m4a''), mtime = 0\<rparr>)
   \<and> \<not> shouldProcessFile DEFAULT_SETTINGS
     (File \<lparr>path = (str ''voice-notes/a.wav''), name = (str ''a.wav''), extension = (str ''wav''), mtime = 0\<rparr>)
   \<and> \<not> shouldProcessFile DEFAULT_SETTINGS (Folder (str ''voice-notes/sub.mp3''))"
  using shouldProcessFile_iff [of DEFAULT_SETTINGS
      "File \<lparr>path = (str ''inbox/voice-notes/a.m4a''), name = (str ''a.m4a''), extension = (str ''m4a''), mtime = 0\<rparr>"]
    shouldProcessFile_iff [of DEFAULT_SETTINGS
      "File \<lparr>path = (str ''voice-notes/a.wav''), name = (str ''a.wav''), extension = (str ''wav''), mtime = 0\<rparr>"]
    shouldProcessFile_iff [of DEFAULT_SETTINGS "Folder (str ''voice-notes/sub.mp3'')"]
  by (simp add: DEFAULT_SETTINGS_def isAudioFile_def)

section \<open>The product of two doubles\<close>

lemma ulpBelow_numeral:
  "ulpBelow (numeral k) b x
     = (if b / 2 \<le> x then b / 2 ^ 53 else ulpBelow (pred_numeral k) (b / 2) x)"
  by (simp add: numeral_eq_Suc)

lemma ulpBelow_form: "\<exists>j. ulpBelow n b x = b / 2 ^ j / 2 ^ 53"
proof (induction n arbitrary: b)
  case 0
  have "ulpBelow 0 b x = b / 2 ^ 0 / 2 ^ 53" by simp
  then show ?case by blast
next
  case (Suc n)
  show ?case
  proof (cases "b / 2 \<le> x")
    case True
    then have "ulpBelow (Suc n) b x = b / 2 ^ 0 / 2 ^ 53" by simp
    then show ?thesis by blast
  next
    case False
    from Suc [of "b / 2"] obtain j where "ulpBelow n (b / 2) x = b / 2 / 2 ^ j / 2 ^ 53" by blast
    with False have "ulpBelow (Suc n) b x = b / 2 ^ Suc j / 2 ^ 53" by simp
    then show ?thesis by blast
  qed
qed

lemma roundHalfEven_near: "\<bar>of_int (roundHalfEven q) - q\<bar> \<le> 1 / 2"
proof -
  have "of_int \<lfloor>q\<rfloor> \<le> q" "q < of_int \<lfloor>q\<rfloor> + 1" by linarith+
  then show ?thesis by (auto simp: roundHalfEven_def Let_def)
qed

lemma roundHalfEven_ge: "of_int m \<le> q \<Longrightarrow> m \<le> roundHalfEven q"
proof -
  assume "of_int m \<le> q"
  then have "m \<le> \<lfloor>q\<rfloor>" by (simp add: le_floor_iff)
  then show ?thesis by (auto simp: roundHalfEven_def Let_def)
qed

lemma roundToDouble_spacing:
  obtains j where "roundToDouble x
      = of_int (roundHalfEven (x * 2 ^ (43 + j))) / 2 ^ (43 + j)"
proof -
  obtain j where u: "ulpBelow 1031 1024 x = 1024 / 2 ^ j / 2 ^ 53"
    using ulpBelow_form by blast
  have "(1024 :: real) / 2 ^ j / 2 ^ 53 = 1 / 2 ^ (43 + j)"
    by (simp add: power_add)
  with u have "ulpBelow 1031 1024 x = 1 / 2 ^ (43 + j)" by simp
  then have "roundToDouble x = of_int (roundHalfEven (x * 2 ^ (43 + j))) / 2 ^ (43 + j)"
    by (simp add: roundToDouble_def Let_def)
  then show ?thesis by (rule that)
qed

lemma roundToDouble_near: "\<bar>roundToDouble x - x\<bar> \<le> 1 / 2 ^ 44"
proof -
  obtain j where r: "roundToDouble x
      = of_int (roundHalfEven (x * 2 ^ (43 + j))) / 2 ^ (43 + j)"
    by (rule roundToDouble_spacing)
  define p :: real where "p = 2 ^ (43 + j)"
  have p: "0 < p" "2 ^ 43 \<le> p" by (simp_all add: p_def power_add)
  define a where "a = real_of_int (roundHalfEven (x * p))"
  have n: "\<bar>a - x * p\<bar> \<le> 1 / 2" unfolding a_def by (rule roundHalfEven_near)
  have "a / p - x = (a - x * p) / p" using p by (simp add: field_simps)
  then have "\<bar>a / p - x\<bar> = \<bar>a - x * p\<bar> / p" using p by (simp add: abs_divide)
  also have "\<dots> \<le> (1 / 2) / p" using p by (intro divide_right_mono n) simp
  also have "\<dots> \<le> (1 / 2) / 2 ^ 43" using p by (simp add: frac_le)
  finally have "\<bar>a / p - x\<bar> \<le> 1 / 2 ^ 44" by simp
  then show ?thesis using r by (simp add: p_def a_def)
qed

lemma roundToDouble_ge_nat:
  assumes "real n \<le> x"
  shows "real n \<le> roundToDouble x"
proof -
  obtain j where r: "roundToDouble x
      = of_int (roundHalfEven (x * 2 ^ (43 + j))) / 2 ^ (43 + j)"
    by (rule roundToDouble_spacing)
  have "of_int (int n * 2 ^ (43 + j)) \<le> x * 2 ^ (43 + j)" using assms by simp
  then have "int n * 2 ^ (43 + j) \<le> roundHalfEven (x * 2 ^ (43 + j))"
    by (rule roundHalfEven_ge)
  then have "real_of_int (int n * 2 ^ (43 + j)) \<le> of_int (roundHalfEven (x * 2 ^ (43 + j)))"
    by (simp only: of_int_le_iff)
  then have "real n * 2 ^ (43 + j) \<le> of_int (roundHalfEven (x * 2 ^ (43 + j)))" by simp
  then show ?thesis unfolding r by (simp add: field_simps)
qed

lemma randomInt1000_between:
  assumes "0 \<le> u"
  shows "nat \<lfloor>u * 1000\<rfloor> \<le> randomInt1000 u"
    and "randomInt1000 u \<le> nat \<lfloor>u * 1000 + 1 / 2 ^ 44\<rfloor>"
proof -
  have x: "0 \<le> u * 1000" using assms by simp
  have "real (nat \<lfloor>u * 1000\<rfloor>) \<le> u * 1000" using x by simp
  then have "real (nat \<lfloor>u * 1000\<rfloor>) \<le> roundToDouble (u * 1000)"
    by (rule roundToDouble_ge_nat)
  then have "int (nat \<lfloor>u * 1000\<rfloor>) \<le> \<lfloor>roundToDouble (u * 1000)\<rfloor>"
    using x by (simp add: le_floor_iff)
  then show "nat \<lfloor>u * 1000\<rfloor> \<le> randomInt1000 u"
    unfolding randomInt1000_def by linarith
  have "roundToDouble (u * 1000) \<le> u * 1000 + 1 / 2 ^ 44"
    using roundToDouble_near [of "u * 1000"] by (simp add: abs_if split: if_splits)
  then have "\<lfloor>roundToDouble (u * 1000)\<rfloor> \<le> \<lfloor>u * 1000 + 1 / 2 ^ 44\<rfloor>"
    by (rule floor_mono)
  then show "randomInt1000 u \<le> nat \<lfloor>u * 1000 + 1 / 2 ^ 44\<rfloor>"
    unfolding randomInt1000_def by linarith
qed

lemma unitDouble_le:
  assumes "unitDouble u"
  shows "0 \<le> u" and "u \<le> 1 - 1 / 2 ^ 53"
proof -
  from assms show "0 \<le> u" by (simp add: unitDouble_def)
  show "u \<le> 1 - 1 / 2 ^ 53"
  proof (cases "1 / 2 \<le> u")
    case True
    then have ulp: "ulpBelow 1021 1 u = 1 / 2 ^ 53" by (simp add: ulpBelow_numeral)
    define m where "m = \<lfloor>u * 2 ^ 53\<rfloor>"
    from assms ulp have eq: "of_int m / 2 ^ 53 = u" and lt: "u < 1"
      by (simp_all add: unitDouble_def Let_def m_def)
    from eq lt have "real_of_int m < 2 ^ 53" by (simp add: field_simps)
    then have "m < 2 ^ 53" by simp
    then have "m \<le> 2 ^ 53 - 1" by simp
    then have "real_of_int m \<le> real_of_int (2 ^ 53 - 1)" by (simp only: of_int_le_iff)
    then have "real_of_int m \<le> 2 ^ 53 - 1" by simp
    then have "real_of_int m / 2 ^ 53 \<le> (2 ^ 53 - 1) / 2 ^ 53" by (simp add: divide_right_mono)
    also have "((2 :: real) ^ 53 - 1) / 2 ^ 53 = 1 - 1 / 2 ^ 53" by (simp add: field_simps)
    finally show ?thesis using eq by simp
  next
    case False
    then show ?thesis by simp
  qed
qed

lemma randomInt1000_less:
  assumes "unitDouble u"
  shows "randomInt1000 u < 1000"
proof -
  from unitDouble_le [OF assms] have u: "0 \<le> u" "u \<le> 1 - 1 / 2 ^ 53" .
  have "u * 1000 + 1 / 2 ^ 44 \<le> (1 - 1 / 2 ^ 53) * 1000 + 1 / 2 ^ 44" using u by simp
  also have "\<dots> < 1000" by simp
  finally have "\<lfloor>u * 1000 + 1 / 2 ^ 44\<rfloor> < 1000" by (simp add: floor_less_iff)
  then have "nat \<lfloor>u * 1000 + 1 / 2 ^ 44\<rfloor> < 1000" by linarith
  with randomInt1000_between(2) [OF u(1)] show ?thesis by linarith
qed

lemma randomInt1000_half: "randomInt1000 (1 / 2) = 500"
  by (simp add: randomInt1000_def roundToDouble_def roundHalfEven_def ulpBelow_numeral Let_def)

lemma randomInt1000_near_623:
  "randomInt1000 (5611485135703638 / 2 ^ 53) = 623"
  "nat \<lfloor>(5611485135703638 / 2 ^ 53 :: real) * 1000\<rfloor> = 622"
  by (simp_all add: randomInt1000_def roundToDouble_def roundHalfEven_def ulpBelow_numeral Let_def)

lemma unitDouble_examples:
  "unitDouble (1 / 2)" "unitDouble (5611485135703638 / 2 ^ 53)"
  by (simp_all add: unitDouble_def ulpBelow_numeral Let_def)

lemma numberToString_below_1000:
  assumes "n < 1000"
  shows "numberToString n
     = (if n < 10 then [48 + n]
        else if n < 100 then [48 + n div 10, 48 + n mod 10]
        else [48 + n div 100, 48 + n div 10 mod 10, 48 + n mod 10])"
proof -
  have one: "numberToString k = [48 + k]" if "k < 10" for k
    using that by (subst numberToString.simps) (simp add: digitChar_def)
  have two: "numberToString k = [48 + k div 10, 48 + k mod 10]" if "10 \<le> k" "k < 100" for k
  proof -
    have "k div 10 < 10" using that by simp
    then show ?thesis using that one by (subst numberToString.simps) (simp add: digitChar_def)
  qed
  show ?thesis
  proof (cases "n < 100")
    case True
    then show ?thesis using one two by (cases "n < 10") simp_all
  next
    case False
    then have "10 \<le> n div 10" "n div 10 < 100" using assms by simp_all
    then have "numberToString (n div 10) = [48 + n div 10 div 10, 48 + n div 10 mod 10]"
      by (rule two)
    then show ?thesis using False
      by (subst numberToString.simps) (simp add: digitChar_def div_mult2_eq [symmetric])
  qed
qed

lemma numberToString_examples:
  "numberToString 500 = str ''500''" "numberToString 623 = str ''623''"
  "numberToString 7 = str ''7''"
  by (simp_all add: numberToString_below_1000)

section \<open>The log of one run of the processor\<close>

lemma quiet_Nil: "quiet []" by (simp add: quiet_def)

lemma quiet_append: "quiet (xs @ ys) \<longleftrightarrow> quiet xs \<and> quiet ys"
  by (auto simp: quiet_def)

lemma notesWritten_append: "notesWritten (xs @ ys) = notesWritten xs @ notesWritten ys"
  by (induction xs rule: notesWritten.induct) auto

lemma renames_append: "renames (xs @ ys) = renames xs @ renames ys"
  by (induction xs rule: renames.induct) auto


lemma quiet_notesWritten: "quiet evs \<Longrightarrow> notesWritten evs = []"
  by (induction evs rule: notesWritten.induct) (auto simp: quiet_def)

lemma quiet_renames: "quiet evs \<Longrightarrow> renames evs = []"
  by (induction evs rule: renames.induct) (auto simp: quiet_def)


lemma hostCall_result:
  "hostCall f ev s = (r, s') \<Longrightarrow>
     r = fst (f (world s)) \<and> log s' = log s @ [ev (ok r)] \<and> queue s' = queue s
       \<and> world s' = snd (f (world s))"
  by (auto simp: hostCall_def split: prod.splits)

lemma transcribeAudio_log:
  assumes "transcribeAudio h file s = (r, s')"
  shows "\<exists>evs. log s' = log s @ evs \<and> quiet evs \<and> queue s' = queue s"
  using assms
  by (auto simp: transcribeAudio_def bindIO_def readBinary_def transcriptionsCreate_def
        hostCall_def throwIO_def returnIO_def quiet_def
      split: prod.splits sum.splits option.splits if_splits)

lemma enhanceTranscript_log:
  assumes "enhanceTranscript h transcript s = (r, s')"
  shows "\<exists>evs. log s' = log s @ evs \<and> quiet evs \<and> queue s' = queue s"
  using assms
  by (auto simp: enhanceTranscript_def bindIO_def chatCompletionsCreate_def
        hostCall_def throwIO_def returnIO_def quiet_def Let_def
      split: prod.splits sum.splits option.splits if_splits list.splits)

lemma resolveOutputPath_log:
  assumes "resolveOutputPath h settings b s = (r, s')"
  shows "log s' = log s \<and> queue s' = queue s
     \<and> (\<exists>p. r = Inr p \<and> startsWith p (outputDirectory settings @ (str ''/'')))"
  using assms
  by (auto simp: resolveOutputPath_def bindIO_def mathRandom_def returnIO_def Let_def startsWith_iff
      split: prod.splits if_splits)

lemma startsWith_append: "startsWith (a @ b) a"
  by (simp add: startsWith_iff)

lemma resolveTargetLocation_log:
  assumes "resolveTargetLocation h settings b ext s = (r, s')"
  shows "log s' = log s \<and> queue s' = queue s
     \<and> (\<exists>t. r = Inr t \<and> startsWith t (processedDirectory settings @ (str ''/'')))"
  using assms
  by (auto simp: resolveTargetLocation_def bindIO_def mathRandom_def returnIO_def Let_def startsWith_iff
      split: prod.splits if_splits)

lemma processAudioFile_log:
  assumes run: "processAudioFile h settings file s = (r, s')"
  shows "\<exists>evs. quiet evs \<and> queue s' = queue s \<and>
     ((log s' = log s @ evs \<and> (\<exists>e. r = Inl e))
      \<or> (\<exists>p d. log s' = log s @ evs @ [VaultCreate p d False] \<and> (\<exists>e. r = Inl e))
      \<or> (\<exists>p d m t. log s' = log s @ evs @ [VaultCreate p d True, ConsoleLog m,
                                             VaultRename (path file) t (ok r)]
            \<and> startsWith p (outputDirectory settings @ (str ''/''))
            \<and> startsWith t (processedDirectory settings @ (str ''/''))))"
proof -
  define base where
    "base = moment_format h (mtime file) (str ''YYYY-MM-DD'') @ (str '' at '') @ moment_format h (mtime file) (str ''HH.mm'')"
  obtain r1 s1 where t: "transcribeAudio h file s = (r1, s1)" by force
  from transcribeAudio_log [OF t] obtain evs1
    where l1: "log s1 = log s @ evs1" "quiet evs1" "queue s1 = queue s" by blast
  show ?thesis
  proof (cases r1)
    case (Inl e)
    with t run have "r = Inl e" "s' = s1"
      by (simp_all add: processAudioFile_def bindIO_def Let_def)
    with l1 show ?thesis by blast
  next
    case (Inr transcript)
    obtain r2 s2 where e: "enhanceTranscript h transcript s1 = (r2, s2)" by force
    from enhanceTranscript_log [OF e] obtain evs2
      where l2: "log s2 = log s1 @ evs2" "quiet evs2" "queue s2 = queue s1" by blast
    have q12: "quiet (evs1 @ evs2)" using l1 l2 by (simp add: quiet_append)
    show ?thesis
    proof (cases r2)
      case (Inl e')
      with Inr t e run have "r = Inl e'" "s' = s2"
        by (simp_all add: processAudioFile_def bindIO_def Let_def)
      with l1 l2 q12 show ?thesis by (metis append.assoc)
    next
      case inr2: (Inr sc)
      obtain summary content where sc: "sc = (summary, content)" by (cases sc)
      define md where
        "md = formatToMarkdown h content transcript (base @ (str ''.'') @ extension file) summary file"
      obtain r3 s3 where o: "resolveOutputPath h settings base s2 = (r3, s3)" by force
      from resolveOutputPath_log [OF o] obtain p
        where l3: "log s3 = log s2" "queue s3 = queue s2" "r3 = Inr p"
          "startsWith p (outputDirectory settings @ (str ''/''))" by blast
      obtain r4 s4 where c: "vaultCreate h p md s3 = (r4, s4)" by force
      then have l4: "log s4 = log s3 @ [VaultCreate p md (ok r4)]" "queue s4 = queue s3"
        by (auto simp: vaultCreate_def dest: hostCall_result)
      show ?thesis
      proof (cases r4)
        case (Inl e')
        with Inr inr2 sc t e o l3 c run have "r = Inl e'" "s' = s4"
          by (simp_all add: processAudioFile_def bindIO_def Let_def base_def md_def)
        moreover have "log s4 = log s @ (evs1 @ evs2) @ [VaultCreate p md False]"
          using l1 l2 l3 l4 Inl by (simp add: ok_def)
        moreover have "queue s4 = queue s" using l1 l2 l3 l4 by simp
        ultimately show ?thesis using q12 by blast
      next
        case inr4: (Inr u)
        obtain r5 s5 where g: "resolveTargetLocation h settings base (extension file) s4 = (r5, s5)"
          by force
        from resolveTargetLocation_log [OF g] obtain tl
          where l5: "log s5 = log s4" "queue s5 = queue s4" "r5 = Inr tl"
            "startsWith tl (processedDirectory settings @ (str ''/''))" by blast
        define m where "m = (str ''Renaming '') @ name file @ (str '' to: '') @ tl"
        define s6 where "s6 = s5\<lparr>log := log s5 @ [ConsoleLog m]\<rparr>"
        obtain r7 s7 where rn: "vaultRename h file tl s6 = (r7, s7)" by force
        then have l7: "log s7 = log s6 @ [VaultRename (path file) tl (ok r7)]" "queue s7 = queue s6"
          by (auto simp: vaultRename_def dest: hostCall_result)
        from Inr inr2 sc t e o l3 c inr4 g l5 rn run have fin: "r = r7" "s' = s7"
          by (simp_all add: processAudioFile_def bindIO_def Let_def base_def md_def emit_def
                m_def s6_def)
        have "log s7 = log s @ (evs1 @ evs2) @ [VaultCreate p md True, ConsoleLog m,
                 VaultRename (path file) tl (ok r7)]"
          using l1 l2 l3 l4 l5 l7 inr4 by (simp add: ok_def s6_def)
        moreover have "queue s7 = queue s" using l1 l2 l3 l4 l5 l7 by (simp add: s6_def)
        ultimately show ?thesis using q12 l3 l5 fin by blast
      qed
    qed
  qed
qed

lemmas run_defs =
  processAudioFile_def simHost_def DEFAULT_SETTINGS_def recording_def simStart_def
  goodWhisper_def goodChat_def transcribeAudio_def enhanceTranscript_def bindIO_def
  returnIO_def throwIO_def hostCall_def readBinary_def transcriptionsCreate_def
  chatCompletionsCreate_def vaultCreate_def vaultRename_def
  resolveOutputPath_def resolveTargetLocation_def mathRandom_def emit_def ok_def simExists_def
  parentOf_def formatToMarkdown_def trim_def slice1_def isWhiteSpace_def userPrompt_def
  systemPrompt_def noText_def randomInt1000_half numberToString_examples Let_def

lemma transcribeAudio_rejected:
  "transcriptionRejected h file s \<Longrightarrow> \<exists>e s1. transcribeAudio h file s = (Inl e, s1)"
  by (auto simp: transcriptionRejected_def transcribeAudio_def bindIO_def readBinary_def
        transcriptionsCreate_def hostCall_def throwIO_def returnIO_def
      split: prod.splits sum.splits option.splits if_splits)

lemma enhanceTranscript_fails_iff:
  "(\<exists>e s1. enhanceTranscript h transcript s = (Inl e, s1)) \<longleftrightarrow> summarizationRejected h transcript s"
  by (auto simp: summarizationRejected_def enhanceTranscript_def bindIO_def
        chatCompletionsCreate_def hostCall_def throwIO_def returnIO_def Let_def
      split: prod.splits sum.splits option.splits if_splits list.splits)

lemma processAudioFile_transcribe_fails:
  "transcribeAudio h file s = (Inl e, s1) \<Longrightarrow> processAudioFile h settings file s = (Inl e, s1)"
  by (simp add: processAudioFile_def bindIO_def Let_def)

lemma processAudioFile_enhance_fails:
  "transcribeAudio h file s = (Inr t, s1) \<Longrightarrow> enhanceTranscript h t s1 = (Inl e, s2)
     \<Longrightarrow> processAudioFile h settings file s = (Inl e, s2)"
  by (simp add: processAudioFile_def bindIO_def Let_def)

lemma goodRun_eval:
  "fst goodRun = Inr ()
   \<and> notesWritten (log (snd goodRun)) = [(str ''voice-notes-output/2024-05-01 at 09.00.md'')]
   \<and> renames (log (snd goodRun))
       = [((str ''voice-notes/memo.m4a''), (str ''voice-notes-processed/2024-05-01 at 09.00.m4a''), True)]"
  by (simp add: goodRun_def run_defs)

lemma takenRun_eval:
  "fst takenRun = Inl (Error (str ''File already exists.''))
   \<and> notesWritten (log (snd takenRun)) = []
   \<and> renames (log (snd takenRun)) = []
   \<and> map_of (simFiles (world (snd takenRun))) (str ''voice-notes/memo.m4a'') = Some (str ''AUDIO'')"
  by (simp add: takenRun_def simTaken_def run_defs)

lemma failedTranscriptionRun_eval:
  "fst failedTranscriptionRun = Inl (Error (str ''503 Service Unavailable''))
   \<and> transcriptionRejected (simHost failingWhisper goodChat) recording simStart
   \<and> map_of (simFiles (world (snd failedTranscriptionRun))) (str ''voice-notes/memo.m4a'') = Some (str ''AUDIO'')"
  by (simp add: failedTranscriptionRun_def transcriptionRejected_def failingWhisper_def run_defs)

lemma emptySummary_eval:
  "fst (transcribeAudio (simHost goodWhisper emptyChat) recording simStart) = Inr (str ''Hello world'')
   \<and> summarizationRejected (simHost goodWhisper emptyChat) (str ''Hello world'')
        (snd (transcribeAudio (simHost goodWhisper emptyChat) recording simStart))
   \<and> fst emptySummaryRun = Inl (Error (str ''No transcription text received from OpenAI''))"
  by (simp add: emptySummaryRun_def summarizationRejected_def emptyChat_def run_defs)

lemma simStart_log: "log simStart = []"
  by (simp add: simStart_def)

section \<open>The worlds of one run of the processor\<close>

lemma bindIO_Inr: "m s = (Inr a, s1) \<Longrightarrow> bindIO m f s = f a s1"
  by (simp add: bindIO_def)

lemma bindIO_Inl: "m s = (Inl e, s1) \<Longrightarrow> bindIO m f s = (Inl e, s1)"
  by (simp add: bindIO_def)

lemma processAudioFile_steps:
  "processAudioFile h settings file =
     bindIO (transcribeAudio h file) (\<lambda>transcript.
     bindIO (enhanceTranscript h transcript) (\<lambda>sc.
     bindIO (resolveOutputPath h settings (baseFileNameOf h file)) (\<lambda>outputPath.
     bindIO (vaultCreate h outputPath
               (formatToMarkdown h (snd sc) transcript (audioFileNameOf h file) (fst sc) file)) (\<lambda>_.
     bindIO (resolveTargetLocation h settings (baseFileNameOf h file) (extension file)) (\<lambda>targetLocation.
     bindIO (emit (ConsoleLog (str ''Renaming '' @ name file @ str '' to: '' @ targetLocation))) (\<lambda>_.
     vaultRename h file targetLocation))))))"
  by (simp add: processAudioFile_def Let_def split_def baseFileNameOf_def audioFileNameOf_def)

lemma vaultCreate_world:
  "vaultCreate h p d s
     = (fst (vault_create h p d (world s)),
        s\<lparr>world := snd (vault_create h p d (world s)),
          log := log s @ [VaultCreate p d (ok (fst (vault_create h p d (world s))))]\<rparr>)"
  by (simp add: vaultCreate_def hostCall_def split: prod.splits)

lemma rename_world:
  assumes "bindIO (emit (ConsoleLog m)) (\<lambda>_. vaultRename h file target) s = (r, s')"
  shows "vault_rename h file target (world s) = (r, world s')"
    and "log s' = log s @ [ConsoleLog m, VaultRename (path file) target (ok r)]"
    and "queue s' = queue s"
  using assms
  by (auto simp: bindIO_def emit_def vaultRename_def hostCall_def split: prod.splits)

lemma processAudioFile_outcome:
  assumes run: "processAudioFile h settings file s = (r, s')"
  shows "(\<exists>e. transcribeAudio h file s = (Inl e, s') \<and> r = Inl e)
   \<or> (\<exists>e t s1. transcribeAudio h file s = (Inr t, s1)
          \<and> enhanceTranscript h t s1 = (Inl e, s') \<and> r = Inl e)
   \<or> (\<exists>t s1 sm ct s2 p s3 rc w4 s4.
          transcribeAudio h file s = (Inr t, s1)
        \<and> enhanceTranscript h t s1 = (Inr (sm, ct), s2)
        \<and> resolveOutputPath h settings (baseFileNameOf h file) s2 = (Inr p, s3)
        \<and> vault_create h p (formatToMarkdown h ct t (audioFileNameOf h file) sm file) (world s3)
            = (rc, w4)
        \<and> s4 = s3\<lparr>world := w4,
                  log := log s3 @ [VaultCreate p
                    (formatToMarkdown h ct t (audioFileNameOf h file) sm file) (ok rc)]\<rparr>
        \<and> ((\<exists>e. rc = Inl e \<and> r = Inl e \<and> s' = s4)
           \<or> (rc = Inr ()
              \<and> (\<exists>target s5.
                    resolveTargetLocation h settings (baseFileNameOf h file) (extension file) s4
                      = (Inr target, s5)
                  \<and> vault_rename h file target (world s5) = (r, world s')
                  \<and> log s' = log s5 @ [ConsoleLog (str ''Renaming '' @ name file @ str '' to: '' @ target),
                                       VaultRename (path file) target (ok r)]
                  \<and> queue s' = queue s5))))"
proof -
  note run' = run [unfolded processAudioFile_steps]
  obtain r1 s1 where t: "transcribeAudio h file s = (r1, s1)" by force
  show ?thesis
  proof (cases r1)
    case (Inl e)
    with t run' have "r = Inl e" "s' = s1" by (simp_all add: bindIO_Inl)
    with t Inl show ?thesis by blast
  next
    case (Inr transcript)
    note t' = t [unfolded Inr]
    obtain r2 s2 where e: "enhanceTranscript h transcript s1 = (r2, s2)" by force
    show ?thesis
    proof (cases r2)
      case (Inl e')
      with t' e run' have "r = Inl e'" "s' = s2"
        by (simp_all add: bindIO_Inr [of "transcribeAudio h file" s transcript s1] bindIO_Inl)
      with t' e Inl show ?thesis by blast
    next
      case inr2: (Inr sc)
      obtain sm ct where sc: "sc = (sm, ct)" by (cases sc)
      note e' = e [unfolded inr2]
      define md where "md = formatToMarkdown h ct transcript (audioFileNameOf h file) sm file"
      obtain r3 s3 where o: "resolveOutputPath h settings (baseFileNameOf h file) s2 = (r3, s3)"
        by force
      from resolveOutputPath_log [OF o] obtain p where p: "r3 = Inr p" by blast
      note o' = o [unfolded p]
      obtain rc w4 where c: "vault_create h p md (world s3) = (rc, w4)" by force
      define s4 where "s4 = s3\<lparr>world := w4, log := log s3 @ [VaultCreate p md (ok rc)]\<rparr>"
      have vc: "vaultCreate h p md s3 = (rc, s4)"
        using c by (simp add: vaultCreate_world s4_def)
      have rest: "bindIO (vaultCreate h p md) (\<lambda>_.
           bindIO (resolveTargetLocation h settings (baseFileNameOf h file) (extension file)) (\<lambda>targetLocation.
           bindIO (emit (ConsoleLog (str ''Renaming '' @ name file @ str '' to: '' @ targetLocation))) (\<lambda>_.
           vaultRename h file targetLocation))) s3 = (r, s')"
        using run' sc
        by (simp add: bindIO_Inr [of "transcribeAudio h file" s transcript s1, OF t']
              bindIO_Inr [of "enhanceTranscript h transcript" s1 sc s2, OF e']
              bindIO_Inr [of "resolveOutputPath h settings (baseFileNameOf h file)" s2 p s3, OF o']
              md_def)
      show ?thesis
      proof (cases rc)
        case (Inl e')
        with vc rest have "r = Inl e'" "s' = s4" by (simp_all add: bindIO_Inl)
        with t' e' sc o' c Inl show ?thesis unfolding md_def s4_def by blast
      next
        case inr4: (Inr u)
        then have rc: "rc = Inr ()" by simp
        obtain r5 s5 where g:
          "resolveTargetLocation h settings (baseFileNameOf h file) (extension file) s4 = (r5, s5)"
          by force
        from resolveTargetLocation_log [OF g] obtain target where tg: "r5 = Inr target" by blast
        note g' = g [unfolded tg]
        have tail: "bindIO (emit (ConsoleLog (str ''Renaming '' @ name file @ str '' to: '' @ target)))
                      (\<lambda>_. vaultRename h file target) s5 = (r, s')"
          using rest
          by (simp add: bindIO_Inr [of "vaultCreate h p md" s3 "()" s4, OF vc [unfolded rc]]
                bindIO_Inr [of "resolveTargetLocation h settings (baseFileNameOf h file) (extension file)"
                              s4 target s5, OF g'])
        from rename_world [OF tail] t' e' sc o' c rc g' show ?thesis
          unfolding md_def s4_def by blast
      qed
    qed
  qed
qed

lemma resolveOutputPath_world:
  assumes "resolveOutputPath h settings b s = (r, s')"
  shows "world s' = world s \<or> world s' = snd (Math_random h (world s))"
  using assms
  by (auto simp: resolveOutputPath_def bindIO_def mathRandom_def returnIO_def Let_def
      split: prod.splits if_splits)

lemma resolveTargetLocation_world:
  assumes "resolveTargetLocation h settings b ext s = (r, s')"
  shows "world s' = world s \<or> world s' = snd (Math_random h (world s))"
  using assms
  by (auto simp: resolveTargetLocation_def bindIO_def mathRandom_def returnIO_def Let_def
      split: prod.splits if_splits)

lemma transcribeAudio_rejected_world:
  assumes "transcriptionRejected h file s"
  shows "\<exists>e s1 a w1. transcribeAudio h file s = (Inl e, s1)
     \<and> vault_readBinary h file (world s) = (Inr a, w1)
     \<and> world s1 = snd (openai_transcriptions_create h a (str ''audio.'' @ extension file)
                         (str ''audio/'' @ extension file) (str ''whisper-1'') w1)"
  using assms
  by (auto simp: transcriptionRejected_def transcribeAudio_def bindIO_def readBinary_def
        transcriptionsCreate_def hostCall_def throwIO_def returnIO_def
      split: prod.splits sum.splits option.splits if_splits)

lemma enhanceTranscript_rejected_world:
  assumes "summarizationRejected h t s"
  shows "\<exists>e s1. enhanceTranscript h t s = (Inl e, s1)
     \<and> world s1 = snd (openai_chat_completions_create h (str ''gpt-4o'')
                         [(str ''system'', systemPrompt), (str ''user'', userPrompt t)] (world s))"
  using assms
  by (auto simp: summarizationRejected_def enhanceTranscript_def bindIO_def
        chatCompletionsCreate_def hostCall_def throwIO_def returnIO_def Let_def
      split: prod.splits sum.splits option.splits if_splits list.splits)

text \<open>
  The shape of a run that reached \<open>vault.create\<close>: what it logged, which worlds the host
  was called in, and how it ended.
\<close>

lemma processAudioFile_reached_create:
  assumes run: "processAudioFile h settings file s = (r, s')"
  obtains (early) evs e where
      "log s' = log s @ evs" "quiet evs" "r = Inl e"
      "transcribeAudio h file s = (Inl e, s')
         \<or> (\<exists>t s1. transcribeAudio h file s = (Inr t, s1)
                \<and> enhanceTranscript h t s1 = (Inl e, s'))"
    | (nowrite) evs t s1 sm ct s2 p w3 e where
      "quiet evs"
      "transcribeAudio h file s = (Inr t, s1)"
      "enhanceTranscript h t s1 = (Inr (sm, ct), s2)"
      "w3 = world s2 \<or> w3 = snd (Math_random h (world s2))"
      "startsWith p (outputDirectory settings @ str ''/'')"
      "vault_create h p (formatToMarkdown h ct t (audioFileNameOf h file) sm file) w3
         = (Inl e, world s')"
      "r = Inl e"
      "log s' = log s @ evs @ [VaultCreate p
          (formatToMarkdown h ct t (audioFileNameOf h file) sm file) False]"
    | (written) evs t s1 sm ct s2 p w3 w4 target w m where
      "quiet evs"
      "transcribeAudio h file s = (Inr t, s1)"
      "enhanceTranscript h t s1 = (Inr (sm, ct), s2)"
      "w3 = world s2 \<or> w3 = snd (Math_random h (world s2))"
      "startsWith p (outputDirectory settings @ str ''/'')"
      "vault_create h p (formatToMarkdown h ct t (audioFileNameOf h file) sm file) w3
         = (Inr (), w4)"
      "w = w4 \<or> w = snd (Math_random h w4)"
      "startsWith target (processedDirectory settings @ str ''/'')"
      "vault_rename h file target w = (r, world s')"
      "log s' = log s @ evs @ [VaultCreate p
          (formatToMarkdown h ct t (audioFileNameOf h file) sm file) True,
          ConsoleLog m, VaultRename (path file) target (ok r)]"
proof -
  from processAudioFile_outcome [OF run]
  consider (T) e where "transcribeAudio h file s = (Inl e, s')" "r = Inl e"
    | (S) e t s1 where "transcribeAudio h file s = (Inr t, s1)"
        "enhanceTranscript h t s1 = (Inl e, s')" "r = Inl e"
    | (C) t s1 sm ct s2 p s3 rc w4 s4 where
        "transcribeAudio h file s = (Inr t, s1)"
        "enhanceTranscript h t s1 = (Inr (sm, ct), s2)"
        "resolveOutputPath h settings (baseFileNameOf h file) s2 = (Inr p, s3)"
        "vault_create h p (formatToMarkdown h ct t (audioFileNameOf h file) sm file) (world s3)
            = (rc, w4)"
        "s4 = s3\<lparr>world := w4,
                  log := log s3 @ [VaultCreate p
                    (formatToMarkdown h ct t (audioFileNameOf h file) sm file) (ok rc)]\<rparr>"
        "(\<exists>e. rc = Inl e \<and> r = Inl e \<and> s' = s4)
           \<or> (rc = Inr ()
              \<and> (\<exists>target s5.
                    resolveTargetLocation h settings (baseFileNameOf h file) (extension file) s4
                      = (Inr target, s5)
                  \<and> vault_rename h file target (world s5) = (r, world s')
                  \<and> log s' = log s5 @ [ConsoleLog (str ''Renaming '' @ name file @ str '' to: '' @ target),
                                       VaultRename (path file) target (ok r)]
                  \<and> queue s' = queue s5))"
    by blast
  then show thesis
  proof cases
    case T
    from transcribeAudio_log [OF T(1)] obtain evs where "log s' = log s @ evs" "quiet evs"
      by blast
    then show thesis using T by (intro early [of evs e]) simp_all
  next
    case S
    from transcribeAudio_log [OF S(1)] enhanceTranscript_log [OF S(2)]
    obtain e1 e2 where l: "log s' = log s @ (e1 @ e2)" and q: "quiet (e1 @ e2)"
      by (auto simp: quiet_append)
    have d: "transcribeAudio h file s = (Inl e, s')
         \<or> (\<exists>t s1. transcribeAudio h file s = (Inr t, s1)
                \<and> enhanceTranscript h t s1 = (Inl e, s'))"
      using S by blast
    show thesis by (rule early [OF l q S(3) d])
  next
    case C
    define md where "md = formatToMarkdown h ct t (audioFileNameOf h file) sm file"
    from transcribeAudio_log [OF C(1)] enhanceTranscript_log [OF C(2)]
    obtain e1 e2 where l2: "log s2 = log s @ (e1 @ e2)" and q: "quiet (e1 @ e2)"
      by (auto simp: quiet_append)
    from resolveOutputPath_log [OF C(3)] have l3: "log s3 = log s2"
      and sp: "startsWith p (outputDirectory settings @ str ''/'')" by auto
    from resolveOutputPath_world [OF C(3)]
    have w3: "world s3 = world s2 \<or> world s3 = snd (Math_random h (world s2))" .
    have l4: "log s4 = log s @ (e1 @ e2) @ [VaultCreate p md (ok rc)]" "world s4 = w4"
      using C(5) l2 l3 by (simp_all add: md_def)
    from C(6) show thesis
    proof (elim disjE conjE exE)
      fix e assume f: "rc = Inl e" "r = Inl e" "s' = s4"
      then have w: "vault_create h p md (world s3) = (Inl e, world s')"
        and l: "log s' = log s @ (e1 @ e2) @ [VaultCreate p md False]"
        using l4 C(4) by (simp_all add: ok_def md_def)
      show thesis
        by (rule nowrite [OF q C(1) C(2) w3 sp w [unfolded md_def] f(2) l [unfolded md_def]])
    next
      fix target s5
      assume ok: "rc = Inr ()"
        and g: "resolveTargetLocation h settings (baseFileNameOf h file) (extension file) s4
                  = (Inr target, s5)"
        and rn: "vault_rename h file target (world s5) = (r, world s')"
        and l: "log s' = log s5 @ [ConsoleLog (str ''Renaming '' @ name file @ str '' to: '' @ target),
                                   VaultRename (path file) target (ok r)]"
      from resolveTargetLocation_log [OF g] have l5: "log s5 = log s4"
        and st: "startsWith target (processedDirectory settings @ str ''/'')" by auto
      from resolveTargetLocation_world [OF g] l4
      have w5: "world s5 = w4 \<or> world s5 = snd (Math_random h w4)" by simp
      have c: "vault_create h p md (world s3) = (Inr (), w4)" using C(4) ok by (simp add: md_def)
      have l': "log s' = log s @ (e1 @ e2) @ [VaultCreate p md True,
                ConsoleLog (str ''Renaming '' @ name file @ str '' to: '' @ target),
                VaultRename (path file) target (ok r)]"
        using l l5 l4 ok by (simp add: ok_def)
      show thesis
        by (rule written [OF q C(1) C(2) w3 sp c [unfolded md_def] w5 st rn l' [unfolded md_def]])
    qed
  qed
qed

lemma quiet_no_create: "quiet evs \<Longrightarrow> VaultCreate p d b \<notin> set evs"
  by (auto simp: quiet_def)

lemma quiet_no_vaultWrite: "quiet evs \<Longrightarrow> filter vaultWrite evs = []"
  by (induction evs) (auto simp: quiet_def)

text \<open>
  Claim C1, as the code has it. In every run of \<open>processAudioFile\<close>, whatever the host
  does, a rename of the source is attempted exactly when the note has been written. When
  \<open>vault.create\<close> fails, the run fails with that error, the failed call is its last event,
  no rename is issued and the vault is left as the failed call left it. When the note is
  written, exactly one rename of the source is issued, into the processed directory, in
  the vault as the write left it (one random draw apart); the run ends with the outcome of
  that rename and in the vault that the rename returned. So the source is relocated only
  if the rename succeeds: when it fails, the note stays written and the source stays.
\<close>

theorem processAudioFile_rename_attempted_iff_note_written:
  assumes "processAudioFile h settings file s = (r, s')"
  shows "\<exists>evs. log s' = log s @ evs
     \<and> (renames evs \<noteq> [] \<longleftrightarrow> notesWritten evs \<noteq> [])
     \<and> (\<forall>p d. VaultCreate p d False \<in> set evs \<longrightarrow>
           renames evs = [] \<and> (\<exists>evs0. evs = evs0 @ [VaultCreate p d False])
           \<and> (\<exists>e w. r = Inl e \<and> vault_create h p d w = (Inl e, world s')))
     \<and> (notesWritten evs \<noteq> [] \<longrightarrow>
           (\<exists>p d w3 w4 target w.
              notesWritten evs = [p] \<and> vault_create h p d w3 = (Inr (), w4)
            \<and> (w = w4 \<or> w = snd (Math_random h w4))
            \<and> renames evs = [(path file, target, ok r)]
            \<and> startsWith target (processedDirectory settings @ str ''/'')
            \<and> vault_rename h file target w = (r, world s')))"
proof -
  from assms show ?thesis
  proof (cases rule: processAudioFile_reached_create)
    case (early evs e)
    then show ?thesis
      by (intro exI [of _ evs])
         (simp add: quiet_notesWritten quiet_renames quiet_no_create)
  next
    case (nowrite evs t s1 sm ct s2 p w3 e)
    define d where "d = formatToMarkdown h ct t (audioFileNameOf h file) sm file"
    have "\<exists>e w. r = Inl e \<and> vault_create h p d w = (Inl e, world s')"
      using nowrite(6,7) unfolding d_def by blast
    with nowrite(1,8) show ?thesis unfolding d_def [symmetric]
      by (intro exI [of _ "evs @ [VaultCreate p d False]"])
         (auto simp: quiet_notesWritten quiet_renames quiet_no_create
            notesWritten_append renames_append)
  next
    case (written evs t s1 sm ct s2 p w3 w4 target w m)
    define d where "d = formatToMarkdown h ct t (audioFileNameOf h file) sm file"
    have ex: "vault_create h p d w3 = (Inr (), w4)
            \<and> (w = w4 \<or> w = snd (Math_random h w4))
            \<and> startsWith target (processedDirectory settings @ str ''/'')
            \<and> vault_rename h file target w = (r, world s')"
      using written(6-9) unfolding d_def by blast
    with written(1,10) show ?thesis unfolding d_def [symmetric]
      by (intro exI [of _ "evs @ [VaultCreate p d True, ConsoleLog m,
                                  VaultRename (path file) target (ok r)]"])
         (simp add: quiet_notesWritten quiet_renames quiet_no_create
            notesWritten_append renames_append, blast)
  qed
qed

lemma goodRun_world:
  "map fst (simFiles (world (snd goodRun)))
     = [str ''voice-notes-processed/2024-05-01 at 09.00.m4a'',
        str ''voice-notes-output/2024-05-01 at 09.00.md'']
   \<and> map_of (simFiles (world (snd goodRun))) (str ''voice-notes-processed/2024-05-01 at 09.00.m4a'')
       = Some (str ''AUDIO'')"
  by (simp add: goodRun_def run_defs)

lemma takenRun_world:
  "map fst (simFiles (world (snd takenRun))) = map fst (simFiles (world simTaken))
   \<and> map_of (simFiles (world (snd takenRun))) (str ''voice-notes/memo.m4a'') = Some (str ''AUDIO'')"
  by (simp add: takenRun_def simTaken_def run_defs)

theorem processAudioFile_rename_attempted_iff_note_written_witness:
  "(\<exists>evs. log (snd goodRun) = log simStart @ evs
      \<and> notesWritten evs = [str ''voice-notes-output/2024-05-01 at 09.00.md'']
      \<and> renames evs
          = [(path recording, str ''voice-notes-processed/2024-05-01 at 09.00.m4a'', True)])
   \<and> map fst (simFiles (world (snd goodRun)))
       = [str ''voice-notes-processed/2024-05-01 at 09.00.m4a'',
          str ''voice-notes-output/2024-05-01 at 09.00.md'']
   \<and> (\<exists>evs. log (snd takenRun) = log simTaken @ evs
      \<and> notesWritten evs = [] \<and> renames evs = [])
   \<and> fst takenRun = Inl (Error (str ''File already exists.''))
   \<and> map fst (simFiles (world (snd takenRun))) = map fst (simFiles (world simTaken))"
proof -
  have g: "processAudioFile (simHost goodWhisper goodChat) DEFAULT_SETTINGS recording simStart
             = (fst goodRun, snd goodRun)"
    by (simp add: goodRun_def)
  have t: "processAudioFile (simHost goodWhisper goodChat) DEFAULT_SETTINGS recording simTaken
             = (fst takenRun, snd takenRun)"
    by (simp add: takenRun_def)
  from processAudioFile_rename_attempted_iff_note_written [OF g] obtain evs where
    e: "log (snd goodRun) = log simStart @ evs" by blast
  then have evs: "evs = log (snd goodRun)" by (simp add: simStart_log)
  from processAudioFile_rename_attempted_iff_note_written [OF t] obtain evs' where
    e': "log (snd takenRun) = log simTaken @ evs'"
      "renames evs' \<noteq> [] \<longleftrightarrow> notesWritten evs' \<noteq> []"
    by blast
  from e'(1) have evs': "evs' = log (snd takenRun)" by (simp add: simTaken_def)
  have "notesWritten evs = [str ''voice-notes-output/2024-05-01 at 09.00.md'']"
    using goodRun_eval evs by simp
  moreover have "renames evs
      = [(path recording, str ''voice-notes-processed/2024-05-01 at 09.00.m4a'', True)]"
    using goodRun_eval evs by (simp add: recording_def)
  moreover have "notesWritten evs' = []" "renames evs' = []"
    using takenRun_eval evs' e'(2) by simp_all
  ultimately show ?thesis using e e'(1) takenRun_eval goodRun_world takenRun_world by blast
qed

text \<open>
  A run in which the note is written and the source is not relocated: the archive path
  and its suffixed variant are both taken, the rename is refused, and the recording is
  still in the watch folder beside the new note.
\<close>

theorem note_written_source_not_relocated:
  "notesWritten (log (snd archiveTakenRun)) = [str ''voice-notes-output/2024-05-01 at 09.00.md'']
   \<and> simExists (world (snd archiveTakenRun)) (str ''voice-notes-output/2024-05-01 at 09.00.md'')
   \<and> renames (log (snd archiveTakenRun))
       = [(str ''voice-notes/memo.m4a'',
           str ''voice-notes-processed/2024-05-01 at 09.00_500.m4a'', False)]
   \<and> fst archiveTakenRun = Inl (Error (str ''Destination file already exists!''))
   \<and> map_of (simFiles (world (snd archiveTakenRun))) (str ''voice-notes/memo.m4a'')
       = Some (str ''AUDIO'')
   \<and> map_of (simFiles (world (snd archiveTakenRun)))
         (str ''voice-notes-processed/2024-05-01 at 09.00_500.m4a'') = Some (str ''OLDER'')"
  by (simp add: archiveTakenRun_def simArchiveTaken_def run_defs)

text \<open>
  Claim C2. In every run of \<open>processAudioFile\<close>: when the remote transcription is refused,
  or the transcription succeeds and the remote summary is refused (the call raises an
  error or returns absent or empty content), the run fails, it issues no call that writes
  to the vault (no \<open>create\<close>, no \<open>rename\<close>, no \<open>createFolder\<close>), and it ends in the world
  that the refused remote call returned. When the run succeeds, its calls that write to
  the vault are exactly one \<open>create\<close> and one \<open>rename\<close>, both successful: the note
  created is the rendering of this file's transcript and summary, at a path in the output
  directory; the rename runs in the vault as the write left it (one random draw apart),
  and the run ends in the vault that the rename returned.
\<close>

theorem processAudioFile_failed_step_no_note:
  assumes "processAudioFile h settings file s = (r, s')"
  shows "\<exists>evs. log s' = log s @ evs
     \<and> (transcriptionRejected h file s \<longrightarrow>
           (\<exists>e. r = Inl e) \<and> filter vaultWrite evs = []
         \<and> (\<exists>a w1. vault_readBinary h file (world s) = (Inr a, w1)
              \<and> world s' = snd (openai_transcriptions_create h a (str ''audio.'' @ extension file)
                                  (str ''audio/'' @ extension file) (str ''whisper-1'') w1)))
     \<and> (\<forall>t s1. transcribeAudio h file s = (Inr t, s1) \<and> summarizationRejected h t s1 \<longrightarrow>
           (\<exists>e. r = Inl e) \<and> filter vaultWrite evs = []
         \<and> world s' = snd (openai_chat_completions_create h (str ''gpt-4o'')
                             [(str ''system'', systemPrompt), (str ''user'', userPrompt t)] (world s1)))
     \<and> (r = Inr () \<longrightarrow>
           (\<exists>t s1 sm ct s2 p w3 w4 target w.
              transcribeAudio h file s = (Inr t, s1)
            \<and> enhanceTranscript h t s1 = (Inr (sm, ct), s2)
            \<and> (w3 = world s2 \<or> w3 = snd (Math_random h (world s2)))
            \<and> startsWith p (outputDirectory settings @ str ''/'')
            \<and> vault_create h p (formatToMarkdown h ct t (audioFileNameOf h file) sm file) w3
                = (Inr (), w4)
            \<and> (w = w4 \<or> w = snd (Math_random h w4))
            \<and> vault_rename h file target w = (Inr (), world s')
            \<and> filter vaultWrite evs
                = [VaultCreate p (formatToMarkdown h ct t (audioFileNameOf h file) sm file) True,
                   VaultRename (path file) target True]
            \<and> notesWritten evs = [p]))"
proof -
  from assms show ?thesis
  proof (cases rule: processAudioFile_reached_create)
    case (early evs e)
    have tr: "\<exists>a w1. vault_readBinary h file (world s) = (Inr a, w1)
              \<and> world s' = snd (openai_transcriptions_create h a (str ''audio.'' @ extension file)
                                  (str ''audio/'' @ extension file) (str ''whisper-1'') w1)"
      if "transcriptionRejected h file s"
    proof -
      from transcribeAudio_rejected_world [OF that] obtain e' s1' a w1
        where a: "transcribeAudio h file s = (Inl e', s1')"
          "vault_readBinary h file (world s) = (Inr a, w1)"
          "world s1' = snd (openai_transcriptions_create h a (str ''audio.'' @ extension file)
                         (str ''audio/'' @ extension file) (str ''whisper-1'') w1)"
        by blast
      with early(4) have "s1' = s'" by auto
      with a show ?thesis by blast
    qed
    have sm: "world s' = snd (openai_chat_completions_create h (str ''gpt-4o'')
                             [(str ''system'', systemPrompt), (str ''user'', userPrompt t)] (world s1))"
      if "transcribeAudio h file s = (Inr t, s1)" "summarizationRejected h t s1" for t s1
    proof -
      from enhanceTranscript_rejected_world [OF that(2)] obtain e' s2'
        where a: "enhanceTranscript h t s1 = (Inl e', s2')"
          "world s2' = snd (openai_chat_completions_create h (str ''gpt-4o'')
                         [(str ''system'', systemPrompt), (str ''user'', userPrompt t)] (world s1))"
        by blast
      with early(4) that(1) have "s2' = s'" by auto
      with a show ?thesis by simp
    qed
    from early(1-3) tr sm show ?thesis
      by (intro exI [of _ evs]) (simp add: quiet_no_vaultWrite)
  next
    case (nowrite evs t s1 sm ct s2 p w3 e)
    define d where "d = formatToMarkdown h ct t (audioFileNameOf h file) sm file"
    have nt: "\<not> transcriptionRejected h file s"
    proof
      assume "transcriptionRejected h file s"
      from transcribeAudio_rejected_world [OF this] obtain e' s1'
        where "transcribeAudio h file s = (Inl e', s1')" by blast
      with nowrite(2) show False by simp
    qed
    have ns: "\<not> summarizationRejected h t' s1'" if "transcribeAudio h file s = (Inr t', s1')" for t' s1'
    proof
      assume "summarizationRejected h t' s1'"
      from enhanceTranscript_rejected_world [OF this] obtain e' s2'
        where "enhanceTranscript h t' s1' = (Inl e', s2')" by blast
      with that nowrite(2,3) show False by simp
    qed
    show ?thesis
    proof (intro exI [of _ "evs @ [VaultCreate p d False]"] conjI impI allI)
      show "log s' = log s @ evs @ [VaultCreate p d False]"
        using nowrite(8) by (simp add: d_def)
    qed (use nt ns nowrite(7) in simp_all)
  next
    case (written evs t s1 sm ct s2 p w3 w4 target w m)
    have nt: "\<not> transcriptionRejected h file s"
    proof
      assume "transcriptionRejected h file s"
      from transcribeAudio_rejected_world [OF this] obtain e' s1'
        where "transcribeAudio h file s = (Inl e', s1')" by blast
      with written(2) show False by simp
    qed
    have ns: "\<not> summarizationRejected h t' s1'" if "transcribeAudio h file s = (Inr t', s1')" for t' s1'
    proof
      assume "summarizationRejected h t' s1'"
      from enhanceTranscript_rejected_world [OF this] obtain e' s2'
        where "enhanceTranscript h t' s1' = (Inl e', s2')" by blast
      with that written(2,3) show False by simp
    qed
    have fw: "filter vaultWrite (evs @ [VaultCreate p
            (formatToMarkdown h ct t (audioFileNameOf h file) sm file) True,
            ConsoleLog m, VaultRename (path file) target (ok r)])
        = [VaultCreate p (formatToMarkdown h ct t (audioFileNameOf h file) sm file) True,
           VaultRename (path file) target (ok r)]"
      using written(1) by (simp add: quiet_no_vaultWrite)
    have nw: "notesWritten (evs @ [VaultCreate p
            (formatToMarkdown h ct t (audioFileNameOf h file) sm file) True,
            ConsoleLog m, VaultRename (path file) target (ok r)]) = [p]"
      using written(1) by (simp add: quiet_notesWritten notesWritten_append)
    show ?thesis
    proof (intro exI [of _ "evs @ [VaultCreate p
            (formatToMarkdown h ct t (audioFileNameOf h file) sm file) True,
            ConsoleLog m, VaultRename (path file) target (ok r)]"] conjI impI allI)
      show "log s' = log s @ evs @ [VaultCreate p
            (formatToMarkdown h ct t (audioFileNameOf h file) sm file) True,
            ConsoleLog m, VaultRename (path file) target (ok r)]"
        by (rule written(10))
    next
      assume ok: "r = Inr ()"
      have "transcribeAudio h file s = (Inr t, s1)
            \<and> enhanceTranscript h t s1 = (Inr (sm, ct), s2)
            \<and> (w3 = world s2 \<or> w3 = snd (Math_random h (world s2)))
            \<and> startsWith p (outputDirectory settings @ str ''/'')
            \<and> vault_create h p (formatToMarkdown h ct t (audioFileNameOf h file) sm file) w3
                = (Inr (), w4)
            \<and> (w = w4 \<or> w = snd (Math_random h w4))
            \<and> vault_rename h file target w = (Inr (), world s')
            \<and> filter vaultWrite (evs @ [VaultCreate p
                  (formatToMarkdown h ct t (audioFileNameOf h file) sm file) True,
                  ConsoleLog m, VaultRename (path file) target (ok r)])
                = [VaultCreate p (formatToMarkdown h ct t (audioFileNameOf h file) sm file) True,
                   VaultRename (path file) target True]
            \<and> notesWritten (evs @ [VaultCreate p
                  (formatToMarkdown h ct t (audioFileNameOf h file) sm file) True,
                  ConsoleLog m, VaultRename (path file) target (ok r)]) = [p]"
        using written(2-7) written(9) fw nw ok by (simp add: ok_def)
      note big = this
      show "\<exists>t' s1 sm' ct' s2 p' w3 w4 target' w.
              transcribeAudio h file s = (Inr t', s1)
            \<and> enhanceTranscript h t' s1 = (Inr (sm', ct'), s2)
            \<and> (w3 = world s2 \<or> w3 = snd (Math_random h (world s2)))
            \<and> startsWith p' (outputDirectory settings @ str ''/'')
            \<and> vault_create h p' (formatToMarkdown h ct' t' (audioFileNameOf h file) sm' file) w3
                = (Inr (), w4)
            \<and> (w = w4 \<or> w = snd (Math_random h w4))
            \<and> vault_rename h file target' w = (Inr (), world s')
            \<and> filter vaultWrite (evs @ [VaultCreate p
                  (formatToMarkdown h ct t (audioFileNameOf h file) sm file) True,
                  ConsoleLog m, VaultRename (path file) target (ok r)])
                = [VaultCreate p' (formatToMarkdown h ct' t' (audioFileNameOf h file) sm' file) True,
                   VaultRename (path file) target' True]
            \<and> notesWritten (evs @ [VaultCreate p
                  (formatToMarkdown h ct t (audioFileNameOf h file) sm file) True,
                  ConsoleLog m, VaultRename (path file) target (ok r)]) = [p']"
        by (rule exI [of _ t], rule exI [of _ s1], rule exI [of _ sm], rule exI [of _ ct],
            rule exI [of _ s2], rule exI [of _ p], rule exI [of _ w3], rule exI [of _ w4],
            rule exI [of _ target], rule exI [of _ w], rule big)
    qed (use nt ns in auto)
  qed
qed


lemma failedRuns_world:
  "world (snd failedTranscriptionRun) = world simStart
   \<and> world (snd emptySummaryRun) = world simStart"
  by (simp add: failedTranscriptionRun_def emptySummaryRun_def failingWhisper_def emptyChat_def
        run_defs)

lemma goodRun_note:
  "filter vaultWrite (log (snd goodRun))
     = [VaultCreate (str ''voice-notes-output/2024-05-01 at 09.00.md'')
          (formatToMarkdown (simHost goodWhisper goodChat) (str ''- said hello'')
             (str ''Hello world'') (str ''2024-05-01 at 09.00.m4a'') (str ''Quick note'') recording)
          True,
        VaultRename (str ''voice-notes/memo.m4a'')
          (str ''voice-notes-processed/2024-05-01 at 09.00.m4a'') True]
   \<and> map_of (simFiles (world (snd goodRun))) (str ''voice-notes-output/2024-05-01 at 09.00.md'')
       = Some (formatToMarkdown (simHost goodWhisper goodChat) (str ''- said hello'')
             (str ''Hello world'') (str ''2024-05-01 at 09.00.m4a'') (str ''Quick note'') recording)"
  by (simp add: goodRun_def run_defs)

theorem processAudioFile_failed_step_no_note_witness:
  "transcriptionRejected (simHost failingWhisper goodChat) recording simStart
   \<and> fst failedTranscriptionRun = Inl (Error (str ''503 Service Unavailable''))
   \<and> filter vaultWrite (log (snd failedTranscriptionRun)) = []
   \<and> world (snd failedTranscriptionRun) = world simStart
   \<and> summarizationRejected (simHost goodWhisper emptyChat) (str ''Hello world'')
        (snd (transcribeAudio (simHost goodWhisper emptyChat) recording simStart))
   \<and> fst emptySummaryRun = Inl (Error (str ''No transcription text received from OpenAI''))
   \<and> filter vaultWrite (log (snd emptySummaryRun)) = []
   \<and> world (snd emptySummaryRun) = world simStart
   \<and> fst goodRun = Inr ()
   \<and> (\<exists>p target. filter vaultWrite (log (snd goodRun))
         = [VaultCreate p
              (formatToMarkdown (simHost goodWhisper goodChat) (str ''- said hello'')
                 (str ''Hello world'') (str ''2024-05-01 at 09.00.m4a'') (str ''Quick note'')
                 recording) True,
            VaultRename (path recording) target True]
       \<and> notesWritten (log (snd goodRun)) = [p]
       \<and> p = str ''voice-notes-output/2024-05-01 at 09.00.md''
       \<and> target = str ''voice-notes-processed/2024-05-01 at 09.00.m4a'')
   \<and> map fst (simFiles (world (snd goodRun)))
       = [str ''voice-notes-processed/2024-05-01 at 09.00.m4a'',
          str ''voice-notes-output/2024-05-01 at 09.00.md'']
   \<and> map_of (simFiles (world (snd goodRun))) (str ''voice-notes-output/2024-05-01 at 09.00.md'')
       = Some (formatToMarkdown (simHost goodWhisper goodChat) (str ''- said hello'')
             (str ''Hello world'') (str ''2024-05-01 at 09.00.m4a'') (str ''Quick note'') recording)"
proof -
  have f: "processAudioFile (simHost failingWhisper goodChat) DEFAULT_SETTINGS recording simStart
             = (fst failedTranscriptionRun, snd failedTranscriptionRun)"
    by (simp add: failedTranscriptionRun_def)
  have m: "processAudioFile (simHost goodWhisper emptyChat) DEFAULT_SETTINGS recording simStart
             = (fst emptySummaryRun, snd emptySummaryRun)"
    by (simp add: emptySummaryRun_def)
  have g: "processAudioFile (simHost goodWhisper goodChat) DEFAULT_SETTINGS recording simStart
             = (fst goodRun, snd goodRun)"
    by (simp add: goodRun_def)
  have tr: "transcribeAudio (simHost goodWhisper emptyChat) recording simStart
      = (Inr (str ''Hello world''),
         snd (transcribeAudio (simHost goodWhisper emptyChat) recording simStart))"
    using emptySummary_eval by (metis prod.collapse)
  have rej: "transcriptionRejected (simHost failingWhisper goodChat) recording simStart"
    using failedTranscriptionRun_eval by simp
  have rej': "summarizationRejected (simHost goodWhisper emptyChat) (str ''Hello world'')
        (snd (transcribeAudio (simHost goodWhisper emptyChat) recording simStart))"
    using emptySummary_eval by simp
  from processAudioFile_failed_step_no_note [OF f] obtain evs where
    e: "log (snd failedTranscriptionRun) = log simStart @ evs"
       "transcriptionRejected (simHost failingWhisper goodChat) recording simStart
          \<longrightarrow> filter vaultWrite evs = []"
    by blast
  from e rej have a: "filter vaultWrite (log (snd failedTranscriptionRun)) = []"
    by (simp add: simStart_log)
  from processAudioFile_failed_step_no_note [OF m] obtain evs' where
    e': "log (snd emptySummaryRun) = log simStart @ evs'"
        "\<forall>t s1. transcribeAudio (simHost goodWhisper emptyChat) recording simStart = (Inr t, s1)
            \<and> summarizationRejected (simHost goodWhisper emptyChat) t s1
          \<longrightarrow> filter vaultWrite evs' = []"
    by blast
  from e'(2) tr rej' have "filter vaultWrite evs' = []" by blast
  with e'(1) have b: "filter vaultWrite (log (snd emptySummaryRun)) = []"
    by (simp add: simStart_log)
  from processAudioFile_failed_step_no_note [OF g] obtain evs'' where
    e'': "log (snd goodRun) = log simStart @ evs''"
         "fst goodRun = Inr () \<longrightarrow> (\<exists>p. notesWritten evs'' = [p])"
    by blast
  from e'' goodRun_eval have "\<exists>p. notesWritten (log (snd goodRun)) = [p]"
    by (simp add: simStart_log)
  then have c: "\<exists>p target. filter vaultWrite (log (snd goodRun))
         = [VaultCreate p
              (formatToMarkdown (simHost goodWhisper goodChat) (str ''- said hello'')
                 (str ''Hello world'') (str ''2024-05-01 at 09.00.m4a'') (str ''Quick note'')
                 recording) True,
            VaultRename (path recording) target True]
       \<and> notesWritten (log (snd goodRun)) = [p]
       \<and> p = str ''voice-notes-output/2024-05-01 at 09.00.md''
       \<and> target = str ''voice-notes-processed/2024-05-01 at 09.00.m4a''"
    using goodRun_note goodRun_eval by (simp add: recording_def)
  have r1: "fst failedTranscriptionRun = Inl (Error (str ''503 Service Unavailable''))"
    using failedTranscriptionRun_eval by simp
  have r2: "fst emptySummaryRun = Inl (Error (str ''No transcription text received from OpenAI''))"
    using emptySummary_eval by simp
  have r3: "fst goodRun = Inr ()" using goodRun_eval by simp
  have w1: "world (snd failedTranscriptionRun) = world simStart"
    and w2: "world (snd emptySummaryRun) = world simStart"
    using failedRuns_world by simp_all
  have w3: "map fst (simFiles (world (snd goodRun)))
       = [str ''voice-notes-processed/2024-05-01 at 09.00.m4a'',
          str ''voice-notes-output/2024-05-01 at 09.00.md'']"
    using goodRun_world by simp
  have w4: "map_of (simFiles (world (snd goodRun))) (str ''voice-notes-output/2024-05-01 at 09.00.md'')
       = Some (formatToMarkdown (simHost goodWhisper goodChat) (str ''- said hello'')
             (str ''Hello world'') (str ''2024-05-01 at 09.00.m4a'') (str ''Quick note'') recording)"
    using goodRun_note by simp
  show ?thesis
    by (intro conjI rej r1 a w1 rej' r2 b w2 r3 c w3 w4)
qed

section \<open>Collision-safe names\<close>

lemma randomInt1000_inside:
  assumes "real n \<le> u * 1000" "u * 1000 + 1 / 2 ^ 44 < real n + 1"
  shows "randomInt1000 u = n"
proof -
  have u: "0 \<le> u"
  proof (rule ccontr)
    assume "\<not> 0 \<le> u"
    then have "u * 1000 < 0" by simp
    with assms(1) show False by simp
  qed
  have a: "u * 1000 < real n + 1" using assms(2) by simp
  have b: "real n \<le> u * 1000 + 1 / 2 ^ 44" using assms(1) by simp
  have lo: "\<lfloor>u * 1000\<rfloor> = int n"
    by (rule floor_unique) (use assms(1) a in simp_all)
  have hi: "\<lfloor>u * 1000 + 1 / 2 ^ 44\<rfloor> = int n"
    by (rule floor_unique) (use assms(2) b in simp_all)
  from randomInt1000_between [OF u] lo hi show ?thesis by simp
qed

lemma randomInt1000_outside:
  assumes "0 \<le> u" "randomInt1000 u = n"
  shows "real n - 1 / 2 ^ 44 \<le> u * 1000" and "u * 1000 < real n + 1"
proof -
  from randomInt1000_between [OF assms(1)] assms(2)
  have a: "nat \<lfloor>u * 1000\<rfloor> \<le> n" and b: "n \<le> nat \<lfloor>u * 1000 + 1 / 2 ^ 44\<rfloor>" by simp_all
  from a have "\<lfloor>u * 1000\<rfloor> \<le> int n" by simp
  then have "\<lfloor>u * 1000\<rfloor> < int n + 1" by simp
  then have "u * 1000 < of_int (int n + 1)" by (simp only: floor_less_iff)
  then show "u * 1000 < real n + 1" by simp
  have "0 \<le> u * 1000 + 1 / 2 ^ 44" using assms(1) by simp
  then have "0 \<le> \<lfloor>u * 1000 + 1 / 2 ^ 44\<rfloor>" by simp
  with b have "int n \<le> \<lfloor>u * 1000 + 1 / 2 ^ 44\<rfloor>" by linarith
  then have "of_int (int n) \<le> u * 1000 + 1 / 2 ^ 44" by (simp only: le_floor_iff)
  then show "real n - 1 / 2 ^ 44 \<le> u * 1000" by simp
qed

lemma unitDouble_dyadic:
  assumes "k < 2 ^ 53"
  shows "unitDouble (real k / 2 ^ 53)"
proof -
  obtain j where j: "ulpBelow 1021 1 (real k / 2 ^ 53) = 1 / 2 ^ j / 2 ^ 53"
    using ulpBelow_form by blast
  have q: "real k / 2 ^ 53 / (1 / 2 ^ j / 2 ^ 53) = of_int (int (k * 2 ^ j))"
    by simp
  have f3: "of_int \<lfloor>real k / 2 ^ 53 / (1 / 2 ^ j / 2 ^ 53)\<rfloor> * (1 / 2 ^ j / 2 ^ 53)
          = real k / 2 ^ 53"
    unfolding q floor_of_int by simp
  have "real k < 2 ^ 53" using assms by (metis of_nat_less_iff of_nat_numeral of_nat_power)
  then have f2: "real k / 2 ^ 53 < 1" by simp
  have f1: "0 \<le> real k / 2 ^ 53" by simp
  show ?thesis unfolding unitDouble_def Let_def j using f1 f2 f3 by blast
qed

lemma randomInt1000_onto:
  assumes "n < 1000"
  shows "\<exists>u. unitDouble u \<and> randomInt1000 u = n"
proof -
  define k where "k = (2 * n + 1) * 4503599627371"
  have "k \<le> 1999 * 4503599627371" using assms by (simp add: k_def)
  then have "k < 2 ^ 53" by simp
  then have d: "unitDouble (real k / 2 ^ 53)" by (rule unitDouble_dyadic)
  have x: "real n \<le> 999" using assms by simp
  have e: "real k / 2 ^ 53 * 1000 = (2 * real n + 1) * (4503599627371000 / 2 ^ 53)"
    by (simp add: k_def)
  have "real n \<le> real k / 2 ^ 53 * 1000" unfolding e by (simp add: field_simps)
  moreover have "real k / 2 ^ 53 * 1000 + 1 / 2 ^ 44 < real n + 1"
    unfolding e using x by (simp add: field_simps)
  ultimately have "randomInt1000 (real k / 2 ^ 53) = n" by (rule randomInt1000_inside)
  with d show ?thesis by blast
qed

text \<open>
  Claim C3. The collision logic, for the note path and for the archive path alike: when
  nothing exists at the desired path it is returned unchanged, nothing is drawn and the
  state is as before; when something exists there, one number is drawn, the state
  afterwards differs only in the world, which is the one the draw returned, and the path
  returned is the desired one with an underscore and the decimal digits of
  \<open>Math.floor(u * 1000)\<close> inserted between the stem and the extension. That path differs
  from the desired one and is returned without being looked up, so there is no retry.
  For a draw \<open>u\<close> of \<open>Math.random\<close>, a double in \<open>[0, 1)\<close>, the number is below 1000. It is
  \<open>n\<close> whenever \<open>n \<le> 1000 u\<close> and \<open>1000 u + 2 ^ -44 < n + 1\<close>, and only if
  \<open>n - 2 ^ -44 \<le> 1000 u < n + 1\<close>: the draws that give \<open>n\<close> are the interval
  \<open>[n / 1000, (n + 1) / 1000)\<close> up to the rounding of the product, all values have
  preimages of the same length up to that rounding, and every \<open>n\<close> below 1000 is the
  number of some draw. The digits appended are those of the number, most significant
  first, without leading zeros (48 is the code unit of the digit 0).
\<close>

theorem resolve_paths_single_suffix:
  "(\<not> vault_getAbstractFileByPath h (world s) (outputDirectory settings @ str ''/'' @ base @ str ''.md'') \<longrightarrow>
      resolveOutputPath h settings base s
        = (Inr (outputDirectory settings @ str ''/'' @ base @ str ''.md''), s))
   \<and> (vault_getAbstractFileByPath h (world s) (outputDirectory settings @ str ''/'' @ base @ str ''.md'')
        \<and> Math_random h (world s) = (u, w) \<longrightarrow>
      resolveOutputPath h settings base s
        = (Inr (outputDirectory settings @ str ''/'' @ base @ str ''_''
                  @ numberToString (randomInt1000 u) @ str ''.md''),
           s\<lparr>world := w\<rparr>)
      \<and> outputDirectory settings @ str ''/'' @ base @ str ''_''
            @ numberToString (randomInt1000 u) @ str ''.md''
          \<noteq> outputDirectory settings @ str ''/'' @ base @ str ''.md'')
   \<and> (\<not> vault_getAbstractFileByPath h (world s) (processedDirectory settings @ str ''/'' @ base @ str ''.'' @ ext) \<longrightarrow>
      resolveTargetLocation h settings base ext s
        = (Inr (processedDirectory settings @ str ''/'' @ base @ str ''.'' @ ext), s))
   \<and> (vault_getAbstractFileByPath h (world s) (processedDirectory settings @ str ''/'' @ base @ str ''.'' @ ext)
        \<and> Math_random h (world s) = (u, w) \<longrightarrow>
      resolveTargetLocation h settings base ext s
        = (Inr (processedDirectory settings @ str ''/'' @ base @ str ''_''
                  @ numberToString (randomInt1000 u) @ str ''.'' @ ext),
           s\<lparr>world := w\<rparr>)
      \<and> processedDirectory settings @ str ''/'' @ base @ str ''_''
            @ numberToString (randomInt1000 u) @ str ''.'' @ ext
          \<noteq> processedDirectory settings @ str ''/'' @ base @ str ''.'' @ ext)
   \<and> (unitDouble u \<longrightarrow>
        randomInt1000 u < 1000
        \<and> (\<forall>n. real n \<le> u * 1000 \<and> u * 1000 + 1 / 2 ^ 44 < real n + 1 \<longrightarrow> randomInt1000 u = n)
        \<and> (\<forall>n. randomInt1000 u = n \<longrightarrow> real n - 1 / 2 ^ 44 \<le> u * 1000 \<and> u * 1000 < real n + 1)
        \<and> numberToString (randomInt1000 u)
            = (if randomInt1000 u < 10 then [48 + randomInt1000 u]
               else if randomInt1000 u < 100
                 then [48 + randomInt1000 u div 10, 48 + randomInt1000 u mod 10]
               else [48 + randomInt1000 u div 100, 48 + randomInt1000 u div 10 mod 10,
                     48 + randomInt1000 u mod 10]))
   \<and> (\<forall>n < 1000. \<exists>v. unitDouble v \<and> randomInt1000 v = n)"
proof (intro conjI impI allI)
  assume "\<not> vault_getAbstractFileByPath h (world s) (outputDirectory settings @ str ''/'' @ base @ str ''.md'')"
  then show "resolveOutputPath h settings base s
        = (Inr (outputDirectory settings @ str ''/'' @ base @ str ''.md''), s)"
    by (simp add: resolveOutputPath_def returnIO_def)
next
  assume "vault_getAbstractFileByPath h (world s) (outputDirectory settings @ str ''/'' @ base @ str ''.md'')
        \<and> Math_random h (world s) = (u, w)"
  then show "resolveOutputPath h settings base s
        = (Inr (outputDirectory settings @ str ''/'' @ base @ str ''_''
                  @ numberToString (randomInt1000 u) @ str ''.md''),
           s\<lparr>world := w\<rparr>)"
    by (simp add: resolveOutputPath_def returnIO_def bindIO_def mathRandom_def)
next
  show "outputDirectory settings @ str ''/'' @ base @ str ''_''
            @ numberToString (randomInt1000 u) @ str ''.md''
          \<noteq> outputDirectory settings @ str ''/'' @ base @ str ''.md''"
    by simp
next
  assume "\<not> vault_getAbstractFileByPath h (world s) (processedDirectory settings @ str ''/'' @ base @ str ''.'' @ ext)"
  then show "resolveTargetLocation h settings base ext s
        = (Inr (processedDirectory settings @ str ''/'' @ base @ str ''.'' @ ext), s)"
    by (simp add: resolveTargetLocation_def returnIO_def)
next
  assume "vault_getAbstractFileByPath h (world s) (processedDirectory settings @ str ''/'' @ base @ str ''.'' @ ext)
        \<and> Math_random h (world s) = (u, w)"
  then show "resolveTargetLocation h settings base ext s
        = (Inr (processedDirectory settings @ str ''/'' @ base @ str ''_''
                  @ numberToString (randomInt1000 u) @ str ''.'' @ ext),
           s\<lparr>world := w\<rparr>)"
    by (simp add: resolveTargetLocation_def returnIO_def bindIO_def mathRandom_def)
next
  show "processedDirectory settings @ str ''/'' @ base @ str ''_''
            @ numberToString (randomInt1000 u) @ str ''.'' @ ext
          \<noteq> processedDirectory settings @ str ''/'' @ base @ str ''.'' @ ext"
    by simp
next
  assume "unitDouble u"
  then show "randomInt1000 u < 1000" by (rule randomInt1000_less)
next
  fix n
  assume "real n \<le> u * 1000 \<and> u * 1000 + 1 / 2 ^ 44 < real n + 1"
  then show "randomInt1000 u = n" using randomInt1000_inside by blast
next
  fix n
  assume "unitDouble u" and n: "randomInt1000 u = n"
  then have "0 \<le> u" by (simp add: unitDouble_le)
  then show "real n - 1 / 2 ^ 44 \<le> u * 1000" using n by (rule randomInt1000_outside)
next
  fix n
  assume "unitDouble u" and n: "randomInt1000 u = n"
  then have "0 \<le> u" by (simp add: unitDouble_le)
  then show "u * 1000 < real n + 1" using n by (rule randomInt1000_outside)
next
  assume "unitDouble u"
  then have "randomInt1000 u < 1000" by (rule randomInt1000_less)
  then show "numberToString (randomInt1000 u)
            = (if randomInt1000 u < 10 then [48 + randomInt1000 u]
               else if randomInt1000 u < 100
                 then [48 + randomInt1000 u div 10, 48 + randomInt1000 u mod 10]
               else [48 + randomInt1000 u div 100, 48 + randomInt1000 u div 10 mod 10,
                     48 + randomInt1000 u mod 10])"
    by (rule numberToString_below_1000)
next
  fix n :: nat
  assume "n < 1000"
  then show "\<exists>v. unitDouble v \<and> randomInt1000 v = n" by (rule randomInt1000_onto)
qed


theorem resolve_paths_single_suffix_witness:
  "resolveOutputPath (simHost goodWhisper goodChat) DEFAULT_SETTINGS (str ''2024-05-01 at 09.00'') simStart
     = (Inr (str ''voice-notes-output/2024-05-01 at 09.00.md''), simStart)
   \<and> resolveTargetLocation (simHost goodWhisper goodChat) DEFAULT_SETTINGS
        (str ''2024-05-01 at 09.00'') (str ''m4a'') simStart
     = (Inr (str ''voice-notes-processed/2024-05-01 at 09.00.m4a''), simStart)
   \<and> simExists (world simTaken) (str ''voice-notes-output/2024-05-01 at 09.00.md'')
   \<and> resolveOutputPath (simHost goodWhisper goodChat) DEFAULT_SETTINGS (str ''2024-05-01 at 09.00'') simTaken
       = (Inr (str ''voice-notes-output/2024-05-01 at 09.00_500.md''),
          simTaken\<lparr>world := (world simTaken)\<lparr>simRandom := []\<rparr>\<rparr>)
   \<and> resolveOutputPath (simHost goodWhisper goodChat) DEFAULT_SETTINGS (str ''2024-05-01 at 09.00'')
        (simTaken\<lparr>world := (world simTaken)\<lparr>simRandom := [5611485135703638 / 2 ^ 53, 1 / 2]\<rparr>\<rparr>)
       = (Inr (str ''voice-notes-output/2024-05-01 at 09.00_623.md''),
          simTaken\<lparr>world := (world simTaken)\<lparr>simRandom := [1 / 2]\<rparr>\<rparr>)
   \<and> simExists (world simArchiveTaken) (str ''voice-notes-processed/2024-05-01 at 09.00.m4a'')
   \<and> resolveTargetLocation (simHost goodWhisper goodChat) DEFAULT_SETTINGS
        (str ''2024-05-01 at 09.00'') (str ''m4a'') simArchiveTaken
       = (Inr (str ''voice-notes-processed/2024-05-01 at 09.00_500.m4a''),
          simArchiveTaken\<lparr>world := (world simArchiveTaken)\<lparr>simRandom := []\<rparr>\<rparr>)
   \<and> unitDouble (1 / 2) \<and> randomInt1000 (1 / 2) = 500 \<and> numberToString 500 = str ''500''
   \<and> unitDouble (5611485135703638 / 2 ^ 53)
   \<and> randomInt1000 (5611485135703638 / 2 ^ 53) = 623
   \<and> nat \<lfloor>(5611485135703638 / 2 ^ 53 :: real) * 1000\<rfloor> = 622
   \<and> numberToString 623 = str ''623''
   \<and> (\<exists>v. unitDouble v \<and> randomInt1000 v = 7)"
proof -
  let ?h = "simHost goodWhisper goodChat"
  let ?base = "str ''2024-05-01 at 09.00''"
  let ?s623 = "simTaken\<lparr>world := (world simTaken)\<lparr>simRandom := [5611485135703638 / 2 ^ 53, 1 / 2]\<rparr>\<rparr>"
  have free: "\<not> vault_getAbstractFileByPath ?h (world simStart)
             (outputDirectory DEFAULT_SETTINGS @ str ''/'' @ ?base @ str ''.md'')"
    by (simp add: run_defs)
  have free': "\<not> vault_getAbstractFileByPath ?h (world simStart)
             (processedDirectory DEFAULT_SETTINGS @ str ''/'' @ ?base @ str ''.'' @ str ''m4a'')"
    by (simp add: run_defs)
  have taken: "vault_getAbstractFileByPath ?h (world simTaken)
             (outputDirectory DEFAULT_SETTINGS @ str ''/'' @ ?base @ str ''.md'')
           \<and> Math_random ?h (world simTaken) = (1 / 2, (world simTaken)\<lparr>simRandom := []\<rparr>)"
    by (simp add: simTaken_def run_defs)
  have taken623: "vault_getAbstractFileByPath ?h (world ?s623)
             (outputDirectory DEFAULT_SETTINGS @ str ''/'' @ ?base @ str ''.md'')
           \<and> Math_random ?h (world ?s623)
               = (5611485135703638 / 2 ^ 53, (world simTaken)\<lparr>simRandom := [1 / 2]\<rparr>)"
    by (simp add: simTaken_def run_defs)
  have taken': "vault_getAbstractFileByPath ?h (world simArchiveTaken)
             (processedDirectory DEFAULT_SETTINGS @ str ''/'' @ ?base @ str ''.'' @ str ''m4a'')
           \<and> Math_random ?h (world simArchiveTaken)
               = (1 / 2, (world simArchiveTaken)\<lparr>simRandom := []\<rparr>)"
    by (simp add: simArchiveTaken_def run_defs)
  note t0 = resolve_paths_single_suffix [of ?h simStart DEFAULT_SETTINGS ?base
      "1 / 2" "world simStart" "str ''m4a''"]
  note t1 = resolve_paths_single_suffix [of ?h simTaken DEFAULT_SETTINGS ?base
      "1 / 2" "(world simTaken)\<lparr>simRandom := []\<rparr>" "str ''m4a''"]
  note t2 = resolve_paths_single_suffix [of ?h ?s623 DEFAULT_SETTINGS ?base
      "5611485135703638 / 2 ^ 53" "(world simTaken)\<lparr>simRandom := [1 / 2]\<rparr>" "str ''m4a''"]
  note t3 = resolve_paths_single_suffix [of ?h simArchiveTaken DEFAULT_SETTINGS ?base
      "1 / 2" "(world simArchiveTaken)\<lparr>simRandom := []\<rparr>" "str ''m4a''"]
  have a: "resolveOutputPath ?h DEFAULT_SETTINGS ?base simStart
     = (Inr (str ''voice-notes-output/2024-05-01 at 09.00.md''), simStart)"
    using t0 [THEN conjunct1, THEN mp, OF free] by (simp add: DEFAULT_SETTINGS_def)
  have b: "resolveTargetLocation ?h DEFAULT_SETTINGS ?base (str ''m4a'') simStart
     = (Inr (str ''voice-notes-processed/2024-05-01 at 09.00.m4a''), simStart)"
    using t0 [THEN conjunct2, THEN conjunct2, THEN conjunct1, THEN mp, OF free']
    by (simp add: DEFAULT_SETTINGS_def)
  have c: "resolveOutputPath ?h DEFAULT_SETTINGS ?base simTaken
       = (Inr (str ''voice-notes-output/2024-05-01 at 09.00_500.md''),
          simTaken\<lparr>world := (world simTaken)\<lparr>simRandom := []\<rparr>\<rparr>)"
    using t1 [THEN conjunct2, THEN conjunct1, THEN mp, OF taken, THEN conjunct1]
    by (simp add: DEFAULT_SETTINGS_def randomInt1000_half numberToString_examples)
  have d: "resolveOutputPath ?h DEFAULT_SETTINGS ?base ?s623
       = (Inr (str ''voice-notes-output/2024-05-01 at 09.00_623.md''),
          simTaken\<lparr>world := (world simTaken)\<lparr>simRandom := [1 / 2]\<rparr>\<rparr>)"
    using t2 [THEN conjunct2, THEN conjunct1, THEN mp, OF taken623, THEN conjunct1,
              unfolded randomInt1000_near_623(1)]
    by (simp add: DEFAULT_SETTINGS_def numberToString_examples)
  have e: "resolveTargetLocation ?h DEFAULT_SETTINGS ?base (str ''m4a'') simArchiveTaken
       = (Inr (str ''voice-notes-processed/2024-05-01 at 09.00_500.m4a''),
          simArchiveTaken\<lparr>world := (world simArchiveTaken)\<lparr>simRandom := []\<rparr>\<rparr>)"
    using t3 [THEN conjunct2, THEN conjunct2, THEN conjunct2, THEN conjunct1, THEN mp, OF taken',
              THEN conjunct1]
    by (simp add: DEFAULT_SETTINGS_def randomInt1000_half numberToString_examples)
  have x: "simExists (world simTaken) (str ''voice-notes-output/2024-05-01 at 09.00.md'')"
    by (simp add: simExists_def simTaken_def)
  have x': "simExists (world simArchiveTaken) (str ''voice-notes-processed/2024-05-01 at 09.00.m4a'')"
    by (simp add: simExists_def simArchiveTaken_def)
  have seven: "\<exists>v. unitDouble v \<and> randomInt1000 v = 7"
    using t0 [THEN conjunct2, THEN conjunct2, THEN conjunct2, THEN conjunct2, THEN conjunct2,
              THEN spec, of 7]
    by simp
  show ?thesis
    by (intro conjI a b x c d x' e unitDouble_examples randomInt1000_half
          randomInt1000_near_623 numberToString_examples seven)
qed

section \<open>Failures stay inside the queued task\<close>









section \<open>The archive lies inside the watched name\<close>

lemma queueUnprocessedFiles_queue:
  "queue (foldl (\<lambda>s' f. if shouldProcessFile settings (File f) then queueFile f s' else s') s fs)
     = queue s @ filter (\<lambda>f. shouldProcessFile settings (File f)) fs"
  by (induction fs arbitrary: s) (simp_all add: queueFile_def)

lemma under_processed_includes_watch:
  assumes "startsWith p (processedDirectory DEFAULT_SETTINGS @ (str ''/''))"
  shows "includesStr p (watchDirectory DEFAULT_SETTINGS)"
proof -
  from assms obtain ss where "p = ((str ''voice-notes-processed'') @ (str ''/'')) @ ss"
    by (auto simp: startsWith_iff DEFAULT_SETTINGS_def)
  then have "p = [] @ (str ''voice-notes'') @ ((str ''-processed/'') @ ss)" by simp
  then show ?thesis unfolding includesStr_iff DEFAULT_SETTINGS_def
    by (metis VoiceNotesSettings.select_convs(2))
qed

text \<open>
  Claim C10. Under the default settings every regular file with extension \<open>mp3\<close> or
  \<open>m4a\<close> whose path lies under the processed directory passes \<open>shouldProcessFile\<close>,
  because \<open>voice-notes-processed\<close> contains \<open>voice-notes\<close>. So the watcher queues it when
  an event carries it, and the start-up scan queues it when the vault lists it. The
  target of every rename that \<open>processAudioFile\<close> issues lies under the processed
  directory, so the relocated recording (the same file at its new path, its extension
  unchanged) is such a file.
\<close>

theorem archived_recording_is_candidate:
  "(extension f \<in> {(str ''mp3''), (str ''m4a'')}
      \<and> startsWith (path f) (processedDirectory DEFAULT_SETTINGS @ (str ''/'')) \<longrightarrow>
      shouldProcessFile DEFAULT_SETTINGS (File f)
      \<and> queueFromWatcher DEFAULT_SETTINGS (File f) s = queueFile f s
      \<and> (f \<in> set (vault_getFiles h (world s)) \<longrightarrow>
           f \<in> set (queue (queueUnprocessedFiles h DEFAULT_SETTINGS s))))
   \<and> (extension file \<in> {(str ''mp3''), (str ''m4a'')}
      \<and> processAudioFile h DEFAULT_SETTINGS file s = (r, s') \<longrightarrow>
      (\<exists>evs. log s' = log s @ evs
         \<and> (\<forall>t b. (path file, t, b) \<in> set (renames evs) \<longrightarrow>
               startsWith t (processedDirectory DEFAULT_SETTINGS @ (str ''/''))
               \<and> shouldProcessFile DEFAULT_SETTINGS (File (file\<lparr>path := t\<rparr>)))))"
proof (intro conjI impI)
  assume a: "extension f \<in> {(str ''mp3''), (str ''m4a'')}
      \<and> startsWith (path f) (processedDirectory DEFAULT_SETTINGS @ (str ''/''))"
  then show c: "shouldProcessFile DEFAULT_SETTINGS (File f)"
    using under_processed_includes_watch [of "path f"] by (auto simp: isAudioFile_def)
  then show "queueFromWatcher DEFAULT_SETTINGS (File f) s = queueFile f s" by simp
  assume "f \<in> set (vault_getFiles h (world s))"
  with c show "f \<in> set (queue (queueUnprocessedFiles h DEFAULT_SETTINGS s))"
    unfolding queueUnprocessedFiles_def queueUnprocessedFiles_queue by simp
next
  assume a: "extension file \<in> {(str ''mp3''), (str ''m4a'')}
      \<and> processAudioFile h DEFAULT_SETTINGS file s = (r, s')"
  then have run: "processAudioFile h DEFAULT_SETTINGS file s = (r, s')" by simp
  from processAudioFile_log [OF run] obtain evs0 where q: "quiet evs0" and
    cases: "(log s' = log s @ evs0 \<and> (\<exists>e. r = Inl e))
      \<or> (\<exists>p d. log s' = log s @ evs0 @ [VaultCreate p d False] \<and> (\<exists>e. r = Inl e))
      \<or> (\<exists>p d m t. log s' = log s @ evs0 @ [VaultCreate p d True, ConsoleLog m,
                                             VaultRename (path file) t (ok r)]
            \<and> startsWith p (outputDirectory DEFAULT_SETTINGS @ (str ''/''))
            \<and> startsWith t (processedDirectory DEFAULT_SETTINGS @ (str ''/'')))"
    by blast
  have cand: "shouldProcessFile DEFAULT_SETTINGS (File (file\<lparr>path := t\<rparr>))"
    if "startsWith t (processedDirectory DEFAULT_SETTINGS @ (str ''/''))" for t
    using that a under_processed_includes_watch [of t] by (auto simp: isAudioFile_def)
  from cases show "\<exists>evs. log s' = log s @ evs
         \<and> (\<forall>t b. (path file, t, b) \<in> set (renames evs) \<longrightarrow>
               startsWith t (processedDirectory DEFAULT_SETTINGS @ (str ''/''))
               \<and> shouldProcessFile DEFAULT_SETTINGS (File (file\<lparr>path := t\<rparr>)))"
  proof (elim disjE conjE exE)
    assume "log s' = log s @ evs0"
    then show ?thesis using q by (intro exI [of _ evs0]) (simp add: quiet_renames)
  next
    fix p d
    assume "log s' = log s @ evs0 @ [VaultCreate p d False]"
    then show ?thesis using q
      by (intro exI [of _ "evs0 @ [VaultCreate p d False]"]) (simp add: quiet_renames renames_append)
  next
    fix p d m t
    assume "log s' = log s @ evs0 @ [VaultCreate p d True, ConsoleLog m,
              VaultRename (path file) t (ok r)]"
      "startsWith t (processedDirectory DEFAULT_SETTINGS @ (str ''/''))"
    then show ?thesis using q cand
      by (intro exI [of _ "evs0 @ [VaultCreate p d True, ConsoleLog m,
              VaultRename (path file) t (ok r)]"]) (simp add: quiet_renames renames_append)
  qed
qed


theorem archived_recording_is_candidate_witness:
  "shouldProcessFile DEFAULT_SETTINGS
     (File (recording\<lparr>path := (str ''voice-notes-processed/2024-05-01 at 09.00.m4a'')\<rparr>))
   \<and> queue (queueFromWatcher DEFAULT_SETTINGS
        (File (recording\<lparr>path := (str ''voice-notes-processed/2024-05-01 at 09.00.m4a'')\<rparr>)) simStart)
       = [recording\<lparr>path := (str ''voice-notes-processed/2024-05-01 at 09.00.m4a'')\<rparr>]
   \<and> renames (log (snd goodRun))
       = [(path recording, (str ''voice-notes-processed/2024-05-01 at 09.00.m4a''), True)]"
proof -
  have e: "extension (recording\<lparr>path := (str ''voice-notes-processed/2024-05-01 at 09.00.m4a'')\<rparr>)
             \<in> {(str ''mp3''), (str ''m4a'')}
      \<and> startsWith (path (recording\<lparr>path := (str ''voice-notes-processed/2024-05-01 at 09.00.m4a'')\<rparr>))
           (processedDirectory DEFAULT_SETTINGS @ (str ''/''))"
    by (simp add: recording_def DEFAULT_SETTINGS_def)
  note t = archived_recording_is_candidate
    [of "recording\<lparr>path := (str ''voice-notes-processed/2024-05-01 at 09.00.m4a'')\<rparr>" simStart
        "simHost goodWhisper goodChat" recording "fst goodRun" "snd goodRun",
     THEN conjunct1, THEN mp, OF e]
  have "queue (queueFile (recording\<lparr>path := (str ''voice-notes-processed/2024-05-01 at 09.00.m4a'')\<rparr>) simStart)
      = [recording\<lparr>path := (str ''voice-notes-processed/2024-05-01 at 09.00.m4a'')\<rparr>]"
    by (simp add: queueFile_def simStart_def)
  then show ?thesis using t goodRun_eval by (simp add: recording_def)
qed

section \<open>Who makes sure of the archive folder\<close>

lemma quiet_folderEvent: "quiet evs \<Longrightarrow> filter folderEvent evs = []"
  by (induction evs) (auto simp: quiet_def)

lemma enhanceTranscript_src_log:
  assumes "enhanceTranscript_src h transcript s = (r, s')"
  shows "\<exists>evs. log s' = log s @ evs \<and> quiet evs \<and> queue s' = queue s"
  using assms
  by (auto simp: enhanceTranscript_src_def bindIO_def chatCompletionsCreate_def
        hostCall_def throwIO_def returnIO_def quiet_def Let_def
      split: prod.splits sum.splits option.splits if_splits list.splits)

lemma queueUnprocessedFiles_fold_log:
  "log (foldl (\<lambda>s' f. if shouldProcessFile settings (File f) then queueFile f s' else s') s fs)
     = log s"
  by (induction fs arbitrary: s) (simp_all add: queueFile_def)

lemma queueUnprocessedFiles_log: "log (queueUnprocessedFiles h settings s) = log s"
  unfolding queueUnprocessedFiles_def by (rule queueUnprocessedFiles_fold_log)

lemma ensure_tail:
  assumes "bindIO (getFolderByPath h dir) (\<lambda>found.
             bindIO (if \<not> found then vaultCreateFolder h dir else returnIO ()) k) s = (r, s')"
  shows "(\<exists>s1. log s1 = log s @ [GetFolderByPath dir True] \<and> k () s1 = (r, s')
             \<and> vault_getFolderByPath h (world s) dir \<and> world s1 = world s)
       \<or> (\<exists>s1. log s1 = log s @ [GetFolderByPath dir False, VaultCreateFolder dir True]
             \<and> k () s1 = (r, s') \<and> \<not> vault_getFolderByPath h (world s) dir)
       \<or> (log s' = log s @ [GetFolderByPath dir False, VaultCreateFolder dir False]
             \<and> (\<exists>e. r = Inl e) \<and> \<not> vault_getFolderByPath h (world s) dir)"
proof (cases "vault_getFolderByPath h (world s) dir")
  case True
  define s1 where "s1 = s\<lparr>log := log s @ [GetFolderByPath dir True]\<rparr>"
  have "k () s1 = (r, s')"
    using assms True by (simp add: bindIO_def getFolderByPath_def returnIO_def s1_def)
  moreover have "log s1 = log s @ [GetFolderByPath dir True]" "world s1 = world s"
    by (simp_all add: s1_def)
  ultimately show ?thesis using True by blast
next
  case False
  define s0 where "s0 = s\<lparr>log := log s @ [GetFolderByPath dir False]\<rparr>"
  obtain r1 s1 where c: "vaultCreateFolder h dir s0 = (r1, s1)" by force
  then have l: "log s1 = log s0 @ [VaultCreateFolder dir (ok r1)]"
    by (auto simp: vaultCreateFolder_def dest: hostCall_result)
  show ?thesis
  proof (cases r1)
    case (Inl e)
    then have "r = Inl e" "s' = s1"
      using assms False c by (simp_all add: bindIO_def getFolderByPath_def s0_def)
    then show ?thesis using l Inl False by (simp add: ok_def s0_def)
  next
    case (Inr u)
    then have "k () s1 = (r, s')"
      using assms False c by (simp add: bindIO_def getFolderByPath_def s0_def)
    then show ?thesis using l Inr False by (auto simp: ok_def s0_def)
  qed
qed


lemma rename_tail:
  assumes "bindIO (emit (ConsoleLog m)) (\<lambda>_. vaultRename h file target) s = (r, s')"
  shows "log s' = log s @ [ConsoleLog m, VaultRename (path file) target (ok r)]"
proof -
  from assms have "vaultRename h file target (s\<lparr>log := log s @ [ConsoleLog m]\<rparr>) = (r, s')"
    by (simp add: bindIO_def emit_def)
  then show ?thesis by (auto simp: vaultRename_def dest: hostCall_result)
qed

lemma ensure_then_move_shape:
  assumes run: "bindIO A (\<lambda>transcript. bindIO (B transcript) (\<lambda>sc.
             bindIO (vaultCreate h (P transcript sc) (MD transcript sc)) (\<lambda>_.
             bindIO (getFolderByPath h dir) (\<lambda>found.
             bindIO (if \<not> found then vaultCreateFolder h dir else returnIO ()) (\<lambda>_.
             bindIO (emit (ConsoleLog (M transcript sc))) (\<lambda>_.
             vaultRename h file (TL transcript sc))))))) s = (r, s')"
    and A_log: "\<And>s r s'. A s = (r, s') \<Longrightarrow> \<exists>evs. log s' = log s @ evs \<and> quiet evs"
    and B_log: "\<And>t s r s'. B t s = (r, s') \<Longrightarrow> \<exists>evs. log s' = log s @ evs \<and> quiet evs"
  shows "\<exists>evs. quiet evs \<and>
     ((log s' = log s @ evs \<and> (\<exists>e. r = Inl e))
      \<or> (\<exists>p d. log s' = log s @ evs @ [VaultCreate p d False] \<and> (\<exists>e. r = Inl e))
      \<or> (\<exists>p d. log s' = log s @ evs @ [VaultCreate p d True,
               GetFolderByPath dir False, VaultCreateFolder dir False] \<and> (\<exists>e. r = Inl e))
      \<or> (\<exists>p d m t. log s' = log s @ evs @ [VaultCreate p d True,
               GetFolderByPath dir True, ConsoleLog m, VaultRename (path file) t (ok r)])
      \<or> (\<exists>p d m t. log s' = log s @ evs @ [VaultCreate p d True,
               GetFolderByPath dir False, VaultCreateFolder dir True,
               ConsoleLog m, VaultRename (path file) t (ok r)]))"
proof -
  obtain r1 s1 where a: "A s = (r1, s1)" by force
  from A_log [OF a] obtain evs1 where l1: "log s1 = log s @ evs1" "quiet evs1" by blast
  show ?thesis
  proof (cases r1)
    case (Inl e)
    with a run have "r = Inl e" "s' = s1" by (simp_all add: bindIO_Inl)
    with l1 show ?thesis by blast
  next
    case (Inr transcript)
    note a' = a [unfolded Inr]
    obtain r2 s2 where b: "B transcript s1 = (r2, s2)" by force
    from B_log [OF b] obtain evs2 where l2: "log s2 = log s1 @ evs2" "quiet evs2" by blast
    have q12: "quiet (evs1 @ evs2)" using l1 l2 by (simp add: quiet_append)
    have l12: "log s2 = log s @ (evs1 @ evs2)" using l1 l2 by simp
    show ?thesis
    proof (cases r2)
      case (Inl e)
      with a' b run have "r = Inl e" "s' = s2" by (simp_all add: bindIO_Inr bindIO_Inl)
      with l12 q12 show ?thesis by blast
    next
      case inr2: (Inr sc)
      note b' = b [unfolded inr2]
      obtain r4 s4 where c: "vaultCreate h (P transcript sc) (MD transcript sc) s2 = (r4, s4)"
        by force
      then have l4: "log s4 = log s2 @ [VaultCreate (P transcript sc) (MD transcript sc) (ok r4)]"
        by (auto simp: vaultCreate_def dest: hostCall_result)
      show ?thesis
      proof (cases r4)
        case (Inl e)
        with a' b' c run have "r = Inl e" "s' = s4" by (simp_all add: bindIO_Inr bindIO_Inl)
        moreover have "log s4 = log s @ (evs1 @ evs2)
                         @ [VaultCreate (P transcript sc) (MD transcript sc) False]"
          using l12 l4 Inl by (simp add: ok_def)
        ultimately show ?thesis using q12 by blast
      next
        case inr4: (Inr u)
        note c' = c [unfolded inr4]
        have l4': "log s4 = log s @ (evs1 @ evs2)
                     @ [VaultCreate (P transcript sc) (MD transcript sc) True]"
          using l12 l4 inr4 by (simp add: ok_def)
        have tail: "bindIO (getFolderByPath h dir) (\<lambda>found.
             bindIO (if \<not> found then vaultCreateFolder h dir else returnIO ())
               (\<lambda>_. bindIO (emit (ConsoleLog (M transcript sc))) (\<lambda>_.
                      vaultRename h file (TL transcript sc)))) s4 = (r, s')"
          using run
          by (simp add: bindIO_Inr [of A s transcript s1, OF a']
                bindIO_Inr [of "B transcript" s1 sc s2, OF b']
                bindIO_Inr [of "vaultCreate h (P transcript sc) (MD transcript sc)" s2 u s4, OF c'])
        from ensure_tail [OF tail] show ?thesis
        proof (elim disjE conjE exE)
          fix s5 assume "log s5 = log s4 @ [GetFolderByPath dir True]"
            "bindIO (emit (ConsoleLog (M transcript sc))) (\<lambda>_.
                      vaultRename h file (TL transcript sc)) s5 = (r, s')"
          then have "log s' = log s @ (evs1 @ evs2) @ [VaultCreate (P transcript sc) (MD transcript sc) True,
               GetFolderByPath dir True, ConsoleLog (M transcript sc),
               VaultRename (path file) (TL transcript sc) (ok r)]"
            using rename_tail l4' by fastforce
          then show ?thesis using q12 by blast
        next
          fix s5 assume "log s5 = log s4 @ [GetFolderByPath dir False, VaultCreateFolder dir True]"
            "bindIO (emit (ConsoleLog (M transcript sc))) (\<lambda>_.
                      vaultRename h file (TL transcript sc)) s5 = (r, s')"
          then have "log s' = log s @ (evs1 @ evs2) @ [VaultCreate (P transcript sc) (MD transcript sc) True,
               GetFolderByPath dir False, VaultCreateFolder dir True, ConsoleLog (M transcript sc),
               VaultRename (path file) (TL transcript sc) (ok r)]"
            using rename_tail l4' by fastforce
          then show ?thesis using q12 by blast
        next
          fix e' assume "log s' = log s4 @ [GetFolderByPath dir False, VaultCreateFolder dir False]"
            "r = Inl e'"
          then have "log s' = log s @ (evs1 @ evs2) @ [VaultCreate (P transcript sc) (MD transcript sc) True,
               GetFolderByPath dir False, VaultCreateFolder dir False]" "\<exists>e. r = Inl e"
            using l4' by simp_all
          then show ?thesis using q12 by blast
        qed
      qed
    qed
  qed
qed

lemma processAudioFile_src_log:
  assumes run: "processAudioFile_src h settings file s = (r, s')"
  shows "\<exists>evs. quiet evs \<and>
     ((log s' = log s @ evs \<and> (\<exists>e. r = Inl e))
      \<or> (\<exists>p d. log s' = log s @ evs @ [VaultCreate p d False] \<and> (\<exists>e. r = Inl e))
      \<or> (\<exists>p d. log s' = log s @ evs @ [VaultCreate p d True,
               GetFolderByPath (processedDirectory settings) False,
               VaultCreateFolder (processedDirectory settings) False] \<and> (\<exists>e. r = Inl e))
      \<or> (\<exists>p d m t. log s' = log s @ evs @ [VaultCreate p d True,
               GetFolderByPath (processedDirectory settings) True,
               ConsoleLog m, VaultRename (path file) t (ok r)])
      \<or> (\<exists>p d m t. log s' = log s @ evs @ [VaultCreate p d True,
               GetFolderByPath (processedDirectory settings) False,
               VaultCreateFolder (processedDirectory settings) True,
               ConsoleLog m, VaultRename (path file) t (ok r)]))"
proof (rule ensure_then_move_shape)
  show "bindIO (transcribeAudio h file) (\<lambda>transcript. bindIO (enhanceTranscript_src h transcript) (\<lambda>sc.
          bindIO (vaultCreate h
                    (outputDirectory settings @ (str ''/'') @ (moment_format h (mtime file) (str ''YYYY-MM-DD'')
                       @ (str '' at '') @ moment_format h (mtime file) (str ''HH.mm'')) @ (str ''.md''))
                    (formatToMarkdown_src h (snd sc)
                       ((moment_format h (mtime file) (str ''YYYY-MM-DD'')
                          @ (str '' at '') @ moment_format h (mtime file) (str ''HH.mm'')) @ (str ''.'') @ extension file)
                       (fst sc) file)) (\<lambda>_.
          bindIO (getFolderByPath h (processedDirectory settings)) (\<lambda>found.
          bindIO (if \<not> found then vaultCreateFolder h (processedDirectory settings) else returnIO ()) (\<lambda>_.
          bindIO (emit (ConsoleLog ((str ''Renaming '') @ (str ''[object Object]'') @ (str '' to: '')
                    @ processedDirectory settings @ (str ''/'') @ (moment_format h (mtime file) (str ''YYYY-MM-DD'')
                          @ (str '' at '') @ moment_format h (mtime file) (str ''HH.mm'')) @ (str ''.'') @ extension file))) (\<lambda>_.
          vaultRename h file (processedDirectory settings @ (str ''/'') @ (moment_format h (mtime file) (str ''YYYY-MM-DD'')
                          @ (str '' at '') @ moment_format h (mtime file) (str ''HH.mm'')) @ (str ''.'') @ extension file))))))) s
        = (r, s')"
    using run unfolding processAudioFile_src_def Let_def split_def .
next
  fix s r s' assume "transcribeAudio h file s = (r, s')"
  from transcribeAudio_log [OF this] show "\<exists>evs. log s' = log s @ evs \<and> quiet evs" by blast
next
  fix t s r s' assume "enhanceTranscript_src h t s = (r, s')"
  from enhanceTranscript_src_log [OF this] show "\<exists>evs. log s' = log s @ evs \<and> quiet evs" by blast
qed

lemma onLayoutReady_log:
  assumes "onLayoutReady h settings s = (r, s')"
  shows "\<exists>rest. log s' = log s @ ConsoleLog (str ''ObsidianVoiceNotesPlugin: onload'')
               # GetFolderByPath (processedDirectory settings)
                   (vault_getFolderByPath h (world s) (processedDirectory settings)) # rest
          \<and> (vault_getFolderByPath h (world s) (processedDirectory settings) \<longrightarrow>
                (\<forall>b. VaultCreateFolder (processedDirectory settings) b \<notin> set rest))
          \<and> (\<not> vault_getFolderByPath h (world s) (processedDirectory settings) \<longrightarrow>
                (\<exists>b rest'. rest = VaultCreateFolder (processedDirectory settings) b # rest'))"
  using assms
  by (auto simp: onLayoutReady_def bindIO_def emit_def getFolderByPath_def vaultCreateFolder_def
        hostCall_def returnIO_def Let_def queueUnprocessedFiles_log
      split: prod.splits sum.splits if_splits)


lemma processAudioFile_no_folderEvent:
  assumes "processAudioFile h settings file s = (r, s')"
  shows "\<exists>evs. log s' = log s @ evs \<and> filter folderEvent evs = []"
proof -
  from processAudioFile_log [OF assms] obtain evs0 where q: "quiet evs0" and
    cases: "(log s' = log s @ evs0 \<and> (\<exists>e. r = Inl e))
      \<or> (\<exists>p d. log s' = log s @ evs0 @ [VaultCreate p d False] \<and> (\<exists>e. r = Inl e))
      \<or> (\<exists>p d m t. log s' = log s @ evs0 @ [VaultCreate p d True, ConsoleLog m,
                                             VaultRename (path file) t (ok r)]
            \<and> startsWith p (outputDirectory settings @ (str ''/''))
            \<and> startsWith t (processedDirectory settings @ (str ''/'')))"
    by blast
  from cases show ?thesis
  proof (elim disjE conjE exE)
    assume "log s' = log s @ evs0"
    then show ?thesis using q by (intro exI [of _ evs0]) (simp add: quiet_folderEvent)
  next
    fix p d
    assume "log s' = log s @ evs0 @ [VaultCreate p d False]"
    then show ?thesis using q
      by (intro exI [of _ "evs0 @ [VaultCreate p d False]"]) (simp add: quiet_folderEvent)
  next
    fix p d m t
    assume "log s' = log s @ evs0 @ [VaultCreate p d True, ConsoleLog m,
              VaultRename (path file) t (ok r)]"
    then show ?thesis using q
      by (intro exI [of _ "evs0 @ [VaultCreate p d True, ConsoleLog m,
              VaultRename (path file) t (ok r)]"]) (simp add: quiet_folderEvent)
  qed
qed

lemma processAudioFile_src_ensures:
  assumes "processAudioFile_src h settings file s = (r, s')"
  shows "\<exists>evs. log s' = log s @ evs
     \<and> (\<forall>t b. (path file, t, b) \<in> set (renames evs) \<longrightarrow>
          (\<exists>evs1 m.
             evs = evs1 @ [GetFolderByPath (processedDirectory settings) True,
                           ConsoleLog m, VaultRename (path file) t b]
           \<or> evs = evs1 @ [GetFolderByPath (processedDirectory settings) False,
                            VaultCreateFolder (processedDirectory settings) True,
                            ConsoleLog m, VaultRename (path file) t b]))"
proof -
  define dir where "dir = processedDirectory settings"
  from processAudioFile_src_log [OF assms] obtain evs0 where q: "quiet evs0" and
    cases: "(log s' = log s @ evs0 \<and> (\<exists>e. r = Inl e))
      \<or> (\<exists>p d. log s' = log s @ evs0 @ [VaultCreate p d False] \<and> (\<exists>e. r = Inl e))
      \<or> (\<exists>p d. log s' = log s @ evs0 @ [VaultCreate p d True,
               GetFolderByPath dir False, VaultCreateFolder dir False] \<and> (\<exists>e. r = Inl e))
      \<or> (\<exists>p d m t. log s' = log s @ evs0 @ [VaultCreate p d True,
               GetFolderByPath dir True, ConsoleLog m, VaultRename (path file) t (ok r)])
      \<or> (\<exists>p d m t. log s' = log s @ evs0 @ [VaultCreate p d True,
               GetFolderByPath dir False, VaultCreateFolder dir True,
               ConsoleLog m, VaultRename (path file) t (ok r)])"
    unfolding dir_def by blast
  have nr: "renames evs0 = []" using q by (rule quiet_renames)
  from cases show ?thesis unfolding dir_def [symmetric]
  proof (elim disjE conjE exE)
    assume "log s' = log s @ evs0"
    then show "\<exists>evs. log s' = log s @ evs
     \<and> (\<forall>t b. (path file, t, b) \<in> set (renames evs) \<longrightarrow>
          (\<exists>evs1 m.
             evs = evs1 @ [GetFolderByPath dir True, ConsoleLog m, VaultRename (path file) t b]
           \<or> evs = evs1 @ [GetFolderByPath dir False, VaultCreateFolder dir True,
                            ConsoleLog m, VaultRename (path file) t b]))"
      using nr by (intro exI [of _ evs0]) simp
  next
    fix p d
    assume "log s' = log s @ evs0 @ [VaultCreate p d False]"
    then show "\<exists>evs. log s' = log s @ evs
     \<and> (\<forall>t b. (path file, t, b) \<in> set (renames evs) \<longrightarrow>
          (\<exists>evs1 m.
             evs = evs1 @ [GetFolderByPath dir True, ConsoleLog m, VaultRename (path file) t b]
           \<or> evs = evs1 @ [GetFolderByPath dir False, VaultCreateFolder dir True,
                            ConsoleLog m, VaultRename (path file) t b]))"
      using nr by (intro exI [of _ "evs0 @ [VaultCreate p d False]"]) (simp add: renames_append)
  next
    fix p d
    assume "log s' = log s @ evs0 @ [VaultCreate p d True,
               GetFolderByPath dir False, VaultCreateFolder dir False]"
    then show "\<exists>evs. log s' = log s @ evs
     \<and> (\<forall>t b. (path file, t, b) \<in> set (renames evs) \<longrightarrow>
          (\<exists>evs1 m.
             evs = evs1 @ [GetFolderByPath dir True, ConsoleLog m, VaultRename (path file) t b]
           \<or> evs = evs1 @ [GetFolderByPath dir False, VaultCreateFolder dir True,
                            ConsoleLog m, VaultRename (path file) t b]))"
      using nr
      by (intro exI [of _ "evs0 @ [VaultCreate p d True,
               GetFolderByPath dir False, VaultCreateFolder dir False]"]) (simp add: renames_append)
  next
    fix p d m t
    assume l: "log s' = log s @ evs0 @ [VaultCreate p d True,
               GetFolderByPath dir True, ConsoleLog m, VaultRename (path file) t (ok r)]"
    have "evs0 @ [VaultCreate p d True, GetFolderByPath dir True, ConsoleLog m,
                   VaultRename (path file) t (ok r)]
          = (evs0 @ [VaultCreate p d True]) @ [GetFolderByPath dir True, ConsoleLog m,
                   VaultRename (path file) t (ok r)]" by simp
    then show "\<exists>evs. log s' = log s @ evs
     \<and> (\<forall>t b. (path file, t, b) \<in> set (renames evs) \<longrightarrow>
          (\<exists>evs1 m.
             evs = evs1 @ [GetFolderByPath dir True, ConsoleLog m, VaultRename (path file) t b]
           \<or> evs = evs1 @ [GetFolderByPath dir False, VaultCreateFolder dir True,
                            ConsoleLog m, VaultRename (path file) t b]))"
      using nr l
      by (intro exI [of _ "evs0 @ [VaultCreate p d True,
               GetFolderByPath dir True, ConsoleLog m, VaultRename (path file) t (ok r)]"])
         (auto simp: renames_append)
  next
    fix p d m t
    assume l: "log s' = log s @ evs0 @ [VaultCreate p d True,
               GetFolderByPath dir False, VaultCreateFolder dir True,
               ConsoleLog m, VaultRename (path file) t (ok r)]"
    have "evs0 @ [VaultCreate p d True, GetFolderByPath dir False, VaultCreateFolder dir True,
                   ConsoleLog m, VaultRename (path file) t (ok r)]
          = (evs0 @ [VaultCreate p d True]) @ [GetFolderByPath dir False, VaultCreateFolder dir True,
                   ConsoleLog m, VaultRename (path file) t (ok r)]" by simp
    then show "\<exists>evs. log s' = log s @ evs
     \<and> (\<forall>t b. (path file, t, b) \<in> set (renames evs) \<longrightarrow>
          (\<exists>evs1 m.
             evs = evs1 @ [GetFolderByPath dir True, ConsoleLog m, VaultRename (path file) t b]
           \<or> evs = evs1 @ [GetFolderByPath dir False, VaultCreateFolder dir True,
                            ConsoleLog m, VaultRename (path file) t b]))"
      using nr l
      by (intro exI [of _ "evs0 @ [VaultCreate p d True,
               GetFolderByPath dir False, VaultCreateFolder dir True,
               ConsoleLog m, VaultRename (path file) t (ok r)]"])
         (auto simp: renames_append)
  qed
qed

text \<open>
  Claim C9, as the code has it. The processor that \<open>main.ts\<close> imports makes sure of no
  folder: a run of \<open>processAudioFile\<close> neither looks the processed directory up nor
  creates it. The directory is made sure of once, at start-up: the layout-ready callback
  looks it up first, creates it when it is absent and issues no creation for it when it
  is there. The older copy of the processor does make sure of it in every run: each of
  its renames comes right after a look-up that found the directory or a creation that
  succeeded.
\<close>

theorem archive_folder_ensured_at_startup_only:
  "(processAudioFile h settings file s = (r, s') \<longrightarrow>
      (\<exists>evs. log s' = log s @ evs \<and> filter folderEvent evs = []))
   \<and> (onLayoutReady h settings s = (r1, s1) \<longrightarrow>
      (\<exists>rest. log s1 = log s @ ConsoleLog (str ''ObsidianVoiceNotesPlugin: onload'')
               # GetFolderByPath (processedDirectory settings)
                   (vault_getFolderByPath h (world s) (processedDirectory settings)) # rest
          \<and> (vault_getFolderByPath h (world s) (processedDirectory settings) \<longrightarrow>
                (\<forall>b. VaultCreateFolder (processedDirectory settings) b \<notin> set rest))
          \<and> (\<not> vault_getFolderByPath h (world s) (processedDirectory settings) \<longrightarrow>
                (\<exists>b rest'. rest = VaultCreateFolder (processedDirectory settings) b # rest'))))
   \<and> (processAudioFile_src h settings file s = (r2, s2) \<longrightarrow>
      (\<exists>evs. log s2 = log s @ evs
         \<and> (\<forall>t b. (path file, t, b) \<in> set (renames evs) \<longrightarrow>
              (\<exists>evs1 m.
                 evs = evs1 @ [GetFolderByPath (processedDirectory settings) True,
                               ConsoleLog m, VaultRename (path file) t b]
               \<or> evs = evs1 @ [GetFolderByPath (processedDirectory settings) False,
                                VaultCreateFolder (processedDirectory settings) True,
                                ConsoleLog m, VaultRename (path file) t b]))))"
  using processAudioFile_no_folderEvent [of h settings "file" s r s']
    onLayoutReady_log [of h settings s r1 s1]
    processAudioFile_src_ensures [of h settings "file" s r2 s2]
  by blast


lemma onLayoutReady_eval:
  "filter folderEvent (log (snd (onLayoutReady (simHost goodWhisper goodChat) DEFAULT_SETTINGS simNoArchive)))
     = [GetFolderByPath (str ''voice-notes-processed'') False,
        VaultCreateFolder (str ''voice-notes-processed'') True,
        GetFolderByPath (str ''voice-notes-output'') True]
   \<and> filter folderEvent (log (snd (onLayoutReady (simHost goodWhisper goodChat) DEFAULT_SETTINGS simStart)))
     = [GetFolderByPath (str ''voice-notes-processed'') True,
        GetFolderByPath (str ''voice-notes-output'') True]"
  by (simp add: onLayoutReady_def queueUnprocessedFiles_def getFolderByPath_def
        vaultCreateFolder_def simNoArchive_def run_defs)

lemma processAudioFile_src_eval:
  "fst (processAudioFile_src (simHost goodWhisper goodChat) DEFAULT_SETTINGS recording simNoArchive) = Inr ()
   \<and> filter folderEvent (log (snd (processAudioFile_src (simHost goodWhisper goodChat)
         DEFAULT_SETTINGS recording simNoArchive)))
     = [GetFolderByPath (str ''voice-notes-processed'') False,
        VaultCreateFolder (str ''voice-notes-processed'') True]
   \<and> renames (log (snd (processAudioFile_src (simHost goodWhisper goodChat)
         DEFAULT_SETTINGS recording simNoArchive)))
     = [((str ''voice-notes/memo.m4a''), (str ''voice-notes-processed/2024-05-01 at 09.00.m4a''), True)]"
  by (simp add: processAudioFile_src_def enhanceTranscript_src_def formatToMarkdown_src_def
        userPrompt_src_def getFolderByPath_def vaultCreateFolder_def simNoArchive_def run_defs)

theorem archive_folder_ensured_at_startup_only_witness:
  "filter folderEvent (log (snd goodRun)) = []
   \<and> filter folderEvent (log (snd (onLayoutReady (simHost goodWhisper goodChat) DEFAULT_SETTINGS simNoArchive)))
     = [GetFolderByPath (str ''voice-notes-processed'') False,
        VaultCreateFolder (str ''voice-notes-processed'') True,
        GetFolderByPath (str ''voice-notes-output'') True]
   \<and> filter folderEvent (log (snd (onLayoutReady (simHost goodWhisper goodChat) DEFAULT_SETTINGS simStart)))
     = [GetFolderByPath (str ''voice-notes-processed'') True,
        GetFolderByPath (str ''voice-notes-output'') True]
   \<and> filter folderEvent (log (snd (processAudioFile_src (simHost goodWhisper goodChat)
         DEFAULT_SETTINGS recording simNoArchive)))
     = [GetFolderByPath (str ''voice-notes-processed'') False,
        VaultCreateFolder (str ''voice-notes-processed'') True]
   \<and> renames (log (snd (processAudioFile_src (simHost goodWhisper goodChat)
         DEFAULT_SETTINGS recording simNoArchive)))
     = [((str ''voice-notes/memo.m4a''), (str ''voice-notes-processed/2024-05-01 at 09.00.m4a''), True)]"
proof -
  have g: "processAudioFile (simHost goodWhisper goodChat) DEFAULT_SETTINGS recording simStart
             = (fst goodRun, snd goodRun)"
    by (simp add: goodRun_def)
  from archive_folder_ensured_at_startup_only
    [of "simHost goodWhisper goodChat" DEFAULT_SETTINGS recording simStart "fst goodRun" "snd goodRun",
     THEN conjunct1, THEN mp, OF g]
  have "filter folderEvent (log (snd goodRun)) = []"
    by (auto simp: simStart_log)
  then show ?thesis using onLayoutReady_eval processAudioFile_src_eval by simp
qed

text \<open>
  A run of \<open>processAudioFile\<close> in a vault whose processed directory is gone (as after its
  deletion once the plugin has started): the note is written, no folder is looked up or
  created, the directory is still missing afterwards, and the rename into it fails.
\<close>

theorem run_without_archive_folder:
  "\<not> vault_getFolderByPath (simHost goodWhisper goodChat) (world simNoArchive)
       (processedDirectory DEFAULT_SETTINGS)
   \<and> notesWritten (log (snd noArchiveRun)) = [(str ''voice-notes-output/2024-05-01 at 09.00.md'')]
   \<and> filter folderEvent (log (snd noArchiveRun)) = []
   \<and> \<not> vault_getFolderByPath (simHost goodWhisper goodChat) (world (snd noArchiveRun))
       (processedDirectory DEFAULT_SETTINGS)
   \<and> renames (log (snd noArchiveRun))
       = [((str ''voice-notes/memo.m4a''), (str ''voice-notes-processed/2024-05-01 at 09.00.m4a''), False)]
   \<and> fst noArchiveRun = Inl (Error (str ''ENOENT: no such file or directory''))"
  by (simp add: noArchiveRun_def simNoArchive_def run_defs)

end
